theory Spec2Isabelle
  imports Complex_Main
begin

section \<open>A shallow embedding of \<open>cube.py\<close>\<close>

text \<open>
  The ray tracer of \<open>src/cube.py\<close>: planes, axis-aligned cubes made of six planes, a
  point light, a pinhole camera and the pixel loop of \<open>render\<close>.

  Numbers: the program computes in IEEE doubles (numpy \<open>float64\<close>); the embedding computes
  in \<^typ>\<open>real\<close>, so rounding, overflow and underflow are outside the model. The
  non-real values that the program's own control flow produces are modelled explicitly:
  \<^item> \<open>float('inf')\<close> / \<open>np.inf\<close>, the initial value of both \<open>min_dist\<close> variables, is
    \<open>None\<close> of a \<^typ>\<open>real option\<close>;
  \<^item> numpy's in-place division of an array by a zero norm does not raise, it leaves
    \<open>nan\<close>/\<open>inf\<close> components: \<open>vdivs\<close> returns \<open>None\<close> there, and a pixel computed
    from such a value is \<open>NonFinitePixel\<close>.
  Python exceptions are values of the type \<open>error\<close>.
\<close>

subsection \<open>Vectors (numpy arrays of three floats)\<close>

type_synonym vec = "real \<times> real \<times> real"

fun vadd :: "vec \<Rightarrow> vec \<Rightarrow> vec" where
  "vadd (a1, a2, a3) (b1, b2, b3) = (a1 + b1, a2 + b2, a3 + b3)"

fun vsub :: "vec \<Rightarrow> vec \<Rightarrow> vec" where
  "vsub (a1, a2, a3) (b1, b2, b3) = (a1 - b1, a2 - b2, a3 - b3)"

text \<open>\<open>v * s\<close> and \<open>v / s\<close> for an array \<open>v\<close> and a scalar \<open>s\<close>.\<close>

fun smul :: "vec \<Rightarrow> real \<Rightarrow> vec" where
  "smul (a1, a2, a3) s = (a1 * s, a2 * s, a3 * s)"

fun sdiv :: "vec \<Rightarrow> real \<Rightarrow> vec" where
  "sdiv (a1, a2, a3) s = (a1 / s, a2 / s, a3 / s)"

fun vdot :: "vec \<Rightarrow> vec \<Rightarrow> real" where
  "vdot (a1, a2, a3) (b1, b2, b3) = a1 * b1 + a2 * b2 + a3 * b3"

fun vabs :: "vec \<Rightarrow> vec" where
  "vabs (a1, a2, a3) = (\<bar>a1\<bar>, \<bar>a2\<bar>, \<bar>a3\<bar>)"

text \<open>\<open>all(v <= s)\<close>: every component is at most the scalar.\<close>

fun all_le :: "vec \<Rightarrow> real \<Rightarrow> bool" where
  "all_le (a1, a2, a3) s = (a1 \<le> s \<and> a2 \<le> s \<and> a3 \<le> s)"

text \<open>\<open>np.linalg.norm\<close>.\<close>

fun norm_vec :: "vec \<Rightarrow> real" where
  "norm_vec (a1, a2, a3) = sqrt (a1 * a1 + a2 * a2 + a3 * a3)"

text \<open>\<open>v /= s\<close> where nothing guards \<open>s\<close>: on \<open>s = 0\<close> numpy warns and stores
  \<open>nan\<close>/\<open>inf\<close>, which is \<open>None\<close> here.\<close>

definition vdivs :: "vec \<Rightarrow> real \<Rightarrow> vec option" where
  "vdivs v s = (if s = 0 then None else Some (sdiv v s))"

text \<open>\<open>np.clip(v, 0, 1)\<close>, which is \<open>minimum(maximum(v, 0), 1)\<close> on each component.\<close>

definition clip01 :: "real \<Rightarrow> real" where
  "clip01 c = min (max c 0) 1"

fun clip :: "vec \<Rightarrow> vec" where
  "clip (a1, a2, a3) = (clip01 a1, clip01 a2, clip01 a3)"

subsection \<open>Plane\<close>

record plane =
  plane_point :: vec
  plane_normal :: vec
  plane_color :: vec

text \<open>\<open>Plane.intersect\<close>. The source returns the triple \<open>(None, None, None)\<close> or a triple
  of three values; its only caller tests the first component, so the triple of \<open>None\<close>s
  is \<open>None\<close> here. \<open>1e-6\<close> is written out as a decimal.\<close>

definition Plane_intersect :: "plane \<Rightarrow> vec \<Rightarrow> vec \<Rightarrow> (real \<times> vec \<times> vec) option" where
  "Plane_intersect self ray_origin ray_direction =
     (let denom = vdot ray_direction (plane_normal self) in
      if \<bar>denom\<bar> < 0.000001 then None
      else
        let t = vdot (vsub (plane_point self) ray_origin) (plane_normal self) / denom in
        if t < 0 then None
        else Some (t, plane_normal self, vadd ray_origin (smul ray_direction t)))"

subsection \<open>Cube\<close>

record cube =
  center :: vec
  side :: real
  color :: vec
  planes :: "plane list"

text \<open>\<open>Cube.__init__\<close>: the six face planes, in the order of the source.\<close>

definition Cube_init :: "vec \<Rightarrow> real \<Rightarrow> vec \<Rightarrow> cube" where
  "Cube_init c s col =
     (let half = s / 2.0 in
      \<lparr> center = c, side = s, color = col,
        planes =
          [ \<lparr> plane_point = vadd c (smul (1, 0, 0) half), plane_normal = (1, 0, 0), plane_color = col \<rparr>,
            \<lparr> plane_point = vadd c (smul (-1, 0, 0) half), plane_normal = (-1, 0, 0), plane_color = col \<rparr>,
            \<lparr> plane_point = vadd c (smul (0, 1, 0) half), plane_normal = (0, 1, 0), plane_color = col \<rparr>,
            \<lparr> plane_point = vadd c (smul (0, -1, 0) half), plane_normal = (0, -1, 0), plane_color = col \<rparr>,
            \<lparr> plane_point = vadd c (smul (0, 0, 1) half), plane_normal = (0, 0, 1), plane_color = col \<rparr>,
            \<lparr> plane_point = vadd c (smul (0, 0, -1) half), plane_normal = (0, 0, -1), plane_color = col \<rparr> ] \<rparr>)"

text \<open>\<open>dist < min_dist\<close> where \<open>min_dist\<close> may still be infinity (\<open>None\<close>).\<close>

fun lt_inf :: "real \<Rightarrow> real option \<Rightarrow> bool" where
  "lt_inf d None = True"
| "lt_inf d (Some m) = (d < m)"

text \<open>The test of line 42:
  \<open>all(abs(p - (self.center + n * self.side / 2)) <= self.side / 2)\<close>.\<close>

definition within_face :: "cube \<Rightarrow> vec \<Rightarrow> vec \<Rightarrow> bool" where
  "within_face self n p =
     all_le (vabs (vsub p (vadd (center self) (sdiv (smul n (side self)) 2)))) (side self / 2)"

text \<open>The loop of \<open>Cube.intersect\<close> over \<open>self.planes\<close>; its state is the three local
  variables \<open>(min_dist, hit_point, normal)\<close>; \<open>dst\<close> is the source's \<open>dist\<close>.\<close>

type_synonym face_state = "real option \<times> vec option \<times> vec option"

fun face_loop :: "cube \<Rightarrow> vec \<Rightarrow> vec \<Rightarrow> plane list \<Rightarrow> face_state \<Rightarrow> face_state" where
  "face_loop self ray_origin ray_direction [] st = st"
| "face_loop self ray_origin ray_direction (pl # pls) (min_dist, hit_point, normal) =
     (case Plane_intersect pl ray_origin ray_direction of
        None \<Rightarrow> face_loop self ray_origin ray_direction pls (min_dist, hit_point, normal)
      | Some (dst, n, p) \<Rightarrow>
          if within_face self n p then
            if lt_inf dst min_dist
            then face_loop self ray_origin ray_direction pls (Some dst, Some p, Some n)
            else face_loop self ray_origin ray_direction pls (min_dist, hit_point, normal)
          else face_loop self ray_origin ray_direction pls (min_dist, hit_point, normal))"

text \<open>\<open>Cube.intersect\<close> returns the pair
  \<open>(min_dist if min_dist != float('inf') else None, normal)\<close>: two optional values.\<close>

definition Cube_intersect :: "cube \<Rightarrow> vec \<Rightarrow> vec \<Rightarrow> real option \<times> vec option" where
  "Cube_intersect self ray_origin ray_direction =
     (case face_loop self ray_origin ray_direction (planes self) (None, None, None) of
        (min_dist, hit_point, normal) \<Rightarrow> (min_dist, normal))"

subsection \<open>Light and shading\<close>

record light =
  position :: vec
  intensity :: real

text \<open>\<open>compute_lighting\<close>; \<open>None\<close> is the \<open>nan\<close> that the unguarded normalisation
  produces (Python's \<open>max(nan, 0)\<close> is \<open>nan\<close>, and so is every product with it).\<close>

definition compute_lighting :: "vec \<Rightarrow> vec \<Rightarrow> light \<Rightarrow> real option" where
  "compute_lighting point normal scene_light =
     (let light_dir = vsub (position scene_light) point in
      case vdivs light_dir (norm_vec light_dir) of
        None \<Rightarrow> None
      | Some light_dir' \<Rightarrow> Some (max (vdot light_dir' normal) 0 * intensity scene_light))"

subsection \<open>Camera\<close>

datatype error = ZeroDivisionError | UnboundLocalError | TypeError | IndexError

text \<open>\<open>ray_from_camera\<close>. \<open>x\<close>, \<open>y\<close>, \<open>image_width\<close> and \<open>image_height\<close> are Python
  integers (\<open>render\<close> takes the pixel coordinates from \<open>range\<close>), so a division by one of
  them raises \<open>ZeroDivisionError\<close> when it is zero. The direction is normalised in
  place, hence optional.\<close>

definition ray_from_camera ::
  "vec \<Rightarrow> nat \<Rightarrow> nat \<Rightarrow> nat \<Rightarrow> nat \<Rightarrow> real \<Rightarrow> error + (vec \<times> vec option)" where
  "ray_from_camera camera_position x y image_width image_height fov =
     (if image_height = 0 then Inl ZeroDivisionError
      else
        let aspect_ratio = real image_width / real image_height;
            scale = tan (fov * 0.5 * pi / 180)
        in
        if image_width = 0 then Inl ZeroDivisionError
        else
          let pixel_x = (2 * (real x + 0.5) / real image_width - 1) * aspect_ratio * scale;
              pixel_y = (1 - 2 * (real y + 0.5) / real image_height) * scale;
              ray_direction = (pixel_x, pixel_y, -1)
          in Inr (camera_position, vdivs ray_direction (norm_vec ray_direction)))"


subsection \<open>The renderer\<close>

text \<open>A cell \<open>image[y, x]\<close>: three finite channels, or the \<open>nan\<close> triple that a product
  with a \<open>nan\<close> intensity writes (\<open>np.clip\<close> keeps \<open>nan\<close>).\<close>

datatype pixel = Pixel vec | NonFinitePixel

definition ambient_light :: real where
  "ambient_light = 0.1"

text \<open>The variables of \<open>render\<close> that live across pixels: the image, the debugging
  counter \<open>hit_count\<close> and \<open>hit_normal\<close>, which is assigned in the object loop and never
  reset (\<open>None\<close>: not yet bound; \<open>Some None\<close>: bound to Python's \<open>None\<close>).\<close>

record render_state =
  image :: "pixel list list"
  hit_count :: nat
  hit_normal :: "vec option option"

text \<open>The loop \<open>for obj in scene\<close>. Its state is
  \<open>(closest_obj, min_dist, hit_count, hit_normal)\<close>; \<open>dst\<close> is the source's \<open>dist\<close>.\<close>

type_synonym scene_state = "cube option \<times> real option \<times> nat \<times> vec option option"

fun scene_loop :: "vec \<Rightarrow> vec \<Rightarrow> cube list \<Rightarrow> scene_state \<Rightarrow> scene_state" where
  "scene_loop origin direction [] st = st"
| "scene_loop origin direction (obj # objs) (closest_obj, min_dist, hc, hn) =
     (case Cube_intersect obj origin direction of
        (None, normal) \<Rightarrow> scene_loop origin direction objs (closest_obj, min_dist, hc, hn)
      | (Some dst, normal) \<Rightarrow>
          if lt_inf dst min_dist
          then scene_loop origin direction objs (Some obj, Some dst, hc + 1, Some normal)
          else scene_loop origin direction objs (closest_obj, min_dist, hc, hn))"

text \<open>\<open>image[y, x] = v\<close>; numpy raises \<open>IndexError\<close> outside the array.\<close>

definition set_pixel :: "pixel list list \<Rightarrow> nat \<Rightarrow> nat \<Rightarrow> pixel \<Rightarrow> error + pixel list list" where
  "set_pixel img y x v =
     (if y < length img \<and> x < length (img ! y) then Inr (img[y := (img ! y)[x := v]])
      else Inl IndexError)"

text \<open>The body of the loop \<open>for x in range(image_width)\<close>, lines 74 to 88.
  \<^item> \<open>closest_obj\<close> and \<open>min_dist\<close> start afresh; \<open>hit_count\<close> and \<open>hit_normal\<close> are carried.
  \<^item> \<open>if closest_obj:\<close> holds for every \<open>Cube\<close> object (the class defines neither
    \<open>__bool__\<close> nor \<open>__len__\<close>).
  \<^item> Reading \<open>hit_normal\<close> unbound raises \<open>UnboundLocalError\<close>; \<open>np.dot\<close> with \<open>None\<close>
    raises \<open>TypeError\<close>.
  \<^item> An infinite \<open>min_dist\<close> or a \<open>nan\<close> intensity gives a \<open>nan\<close> pixel.
  \<^item> A direction that is not finite meets no plane: every comparison of
    \<open>Plane.intersect\<close> and of the bound test with a \<open>nan\<close> is false, so nothing is written.\<close>

definition render_pixel ::
  "cube list \<Rightarrow> light \<Rightarrow> vec \<Rightarrow> nat \<Rightarrow> nat \<Rightarrow> real \<Rightarrow> nat \<Rightarrow> nat \<Rightarrow> render_state \<Rightarrow> error + render_state" where
  "render_pixel scene scene_light camera_position image_width image_height fov y x st =
     (case ray_from_camera camera_position x y image_width image_height fov of
        Inl e \<Rightarrow> Inl e
      | Inr (origin, None) \<Rightarrow> Inr st
      | Inr (origin, Some direction) \<Rightarrow>
          (case scene_loop origin direction scene (None, None, hit_count st, hit_normal st) of
             (None, min_dist, hc, hn) \<Rightarrow> Inr (st\<lparr>hit_count := hc, hit_normal := hn\<rparr>)
           | (Some closest_obj, min_dist, hc, hn) \<Rightarrow>
               (case hn of
                  None \<Rightarrow> Inl UnboundLocalError
                | Some None \<Rightarrow> Inl TypeError
                | Some (Some normal) \<Rightarrow>
                    let v =
                      (case min_dist of
                         None \<Rightarrow> NonFinitePixel
                       | Some md \<Rightarrow>
                           let hit_point = vadd origin (smul direction md) in
                           (case compute_lighting hit_point normal scene_light of
                              None \<Rightarrow> NonFinitePixel
                            | Some li \<Rightarrow>
                                let light_intensity = li + ambient_light;
                                    col = smul (color closest_obj) light_intensity
                                in Pixel (clip col)))
                    in
                    (case set_pixel (image st) y x v of
                       Inl e \<Rightarrow> Inl e
                     | Inr img \<Rightarrow> Inr \<lparr>image = img, hit_count = hc, hit_normal = hn\<rparr>))))"

text \<open>A \<open>for\<close> loop whose body may raise: the first exception ends it.\<close>

fun for_loop :: "('a \<Rightarrow> 's \<Rightarrow> error + 's) \<Rightarrow> 'a list \<Rightarrow> 's \<Rightarrow> error + 's" where
  "for_loop body [] st = Inr st"
| "for_loop body (i # rest) st =
     (case body i st of Inl e \<Rightarrow> Inl e | Inr st' \<Rightarrow> for_loop body rest st')"

text \<open>The loop \<open>for x in range(image_width)\<close> of one row \<open>y\<close>.\<close>

definition render_row ::
  "cube list \<Rightarrow> light \<Rightarrow> vec \<Rightarrow> nat \<Rightarrow> nat \<Rightarrow> real \<Rightarrow> nat \<Rightarrow> render_state \<Rightarrow> error + render_state" where
  "render_row scene scene_light camera_position image_width image_height fov y st =
     for_loop (render_pixel scene scene_light camera_position image_width image_height fov y)
       [0..<image_width] st"

text \<open>\<open>render\<close>: \<open>np.zeros((image_height, image_width, 3))\<close>, the loop
  \<open>for y in range(image_height)\<close>, and the image returned.\<close>

definition render ::
  "cube list \<Rightarrow> light \<Rightarrow> vec \<Rightarrow> nat \<Rightarrow> nat \<Rightarrow> real \<Rightarrow> error + pixel list list" where
  "render scene scene_light camera_position image_width image_height fov =
     (let image0 = replicate image_height (replicate image_width (Pixel (0, 0, 0))) in
      case for_loop (render_row scene scene_light camera_position image_width image_height fov)
             [0..<image_height] \<lparr>image = image0, hit_count = 0, hit_normal = None\<rparr> of
        Inl e \<Rightarrow> Inl e
      | Inr st \<Rightarrow> Inr (image st))"

section \<open>Definitions that follow the specification's words\<close>

text \<open>The accepted face hits of a box, as the specification describes them: plane
  intersection on each plane of the list, and a hit is kept when, on each of the three
  axes, \<open>|hit_point - (center + normal * side/2)| \<le> side/2\<close>. Each accepted hit is
  the pair of its distance and its face normal, in the order of the planes.\<close>

definition accepted_hits :: "cube \<Rightarrow> vec \<Rightarrow> vec \<Rightarrow> plane list \<Rightarrow> (real \<times> vec) list" where
  "accepted_hits self ray_origin ray_direction pls =
     List.map_filter
       (\<lambda>pl. case Plane_intersect pl ray_origin ray_direction of
                None \<Rightarrow> None
              | Some (t, n, p) \<Rightarrow>
                  (case vsub p (vadd (center self) (smul n (side self / 2))) of
                     (e1, e2, e3) \<Rightarrow>
                       if \<bar>e1\<bar> \<le> side self / 2 \<and> \<bar>e2\<bar> \<le> side self / 2 \<and> \<bar>e3\<bar> \<le> side self / 2
                       then Some (t, n) else None))
       pls"

text \<open>The exact face bound of an axis-aligned box, as the specification describes it: only
  the two axes orthogonal to the face normal are checked, each against the extent of the
  box, \<open>center \<plusminus> side/2\<close>.\<close>

definition exact_face_test :: "cube \<Rightarrow> vec \<Rightarrow> vec \<Rightarrow> bool" where
  "exact_face_test self n p =
     (case (n, p, center self) of
        ((n1, n2, n3), (p1, p2, p3), (c1, c2, c3)) \<Rightarrow>
          (n1 \<noteq> 0 \<or> \<bar>p1 - c1\<bar> \<le> side self / 2) \<and>
          (n2 \<noteq> 0 \<or> \<bar>p2 - c2\<bar> \<le> side self / 2) \<and>
          (n3 \<noteq> 0 \<or> \<bar>p3 - c3\<bar> \<le> side self / 2))"

text \<open>\<open>normalize(v)\<close> of the specification: \<open>v\<close> divided by its length.\<close>

definition normalize :: "vec \<Rightarrow> vec" where
  "normalize v = sdiv v (norm_vec v)"

text \<open>The resolver of the specification is the loop \<open>for obj in scene\<close> of \<open>render\<close>,
  started as \<open>render\<close> starts it for every pixel (\<open>closest_obj = None\<close>,
  \<open>min_dist = np.inf\<close>) and with \<open>hit_normal\<close> not yet bound; its result is the three
  variables \<open>(closest_obj, min_dist, hit_normal)\<close> after the loop.\<close>

definition resolve :: "cube list \<Rightarrow> vec \<Rightarrow> vec \<Rightarrow> cube option \<times> real option \<times> vec option option" where
  "resolve scene origin direction =
     (case scene_loop origin direction scene (None, None, 0, None) of
        (closest_obj, min_dist, hc, hn) \<Rightarrow> (closest_obj, min_dist, hn))"

text \<open>The pixel of a hit, as the specification describes it: the colour of the object times
  the lambertian intensity at \<open>origin + t * direction\<close> plus the ambient constant, each
  channel clamped to \<open>[0, 1]\<close>.\<close>

definition shade :: "light \<Rightarrow> vec \<Rightarrow> vec \<Rightarrow> cube \<Rightarrow> real \<Rightarrow> vec \<Rightarrow> pixel" where
  "shade scene_light origin direction obj t n =
     (case compute_lighting (vadd origin (smul direction t)) n scene_light of
        None \<Rightarrow> NonFinitePixel
      | Some li \<Rightarrow> Pixel (clip (smul (color obj) (li + ambient_light))))"

text \<open>What the pixel \<open>(x, y)\<close> holds after its turn, as a function of the scene, the light,
  the camera configuration, its coordinates and what it held before.\<close>

definition pixel_after ::
  "cube list \<Rightarrow> light \<Rightarrow> vec \<Rightarrow> nat \<Rightarrow> nat \<Rightarrow> real \<Rightarrow> nat \<Rightarrow> nat \<Rightarrow> pixel \<Rightarrow> pixel" where
  "pixel_after scene scene_light camera_position image_width image_height fov y x old =
     (case ray_from_camera camera_position x y image_width image_height fov of
        Inr (origin, Some direction) \<Rightarrow>
          (case resolve scene origin direction of
             (Some obj, Some t, Some (Some n)) \<Rightarrow> shade scene_light origin direction obj t n
           | _ \<Rightarrow> old)
      | _ \<Rightarrow> old)"

text \<open>An image of \<open>h\<close> rows of \<open>w\<close> pixels.\<close>

definition shape :: "nat \<Rightarrow> nat \<Rightarrow> pixel list list \<Rightarrow> bool" where
  "shape h w img = (length img = h \<and> (\<forall>row \<in> set img. length row = w))"

section \<open>Plane intersection\<close>

text \<open>
  Claim C3. For every plane and every ray, with \<open>denom = dot(direction, normal)\<close> and
  \<open>t = dot(plane.point - origin, normal) / denom\<close>: \<open>Plane.intersect\<close> returns none exactly
  when \<open>|denom| < 1e-6\<close> or \<open>t < 0\<close>, and otherwise it returns \<open>t\<close>, the plane's normal
  and the hit point \<open>origin + t * direction\<close>; so \<open>t = 0\<close> is a hit.
\<close>

theorem Plane_intersect_spec:
  "(Plane_intersect pl ray_origin ray_direction = None) =
     (\<bar>vdot ray_direction (plane_normal pl)\<bar> < 0.000001 \<or>
      vdot (vsub (plane_point pl) ray_origin) (plane_normal pl) / vdot ray_direction (plane_normal pl) < 0)
   \<and> Plane_intersect pl ray_origin ray_direction =
     (if \<bar>vdot ray_direction (plane_normal pl)\<bar> < 0.000001 \<or>
         vdot (vsub (plane_point pl) ray_origin) (plane_normal pl) / vdot ray_direction (plane_normal pl) < 0
      then None
      else Some (vdot (vsub (plane_point pl) ray_origin) (plane_normal pl) / vdot ray_direction (plane_normal pl),
                 plane_normal pl,
                 vadd ray_origin
                   (smul ray_direction
                      (vdot (vsub (plane_point pl) ray_origin) (plane_normal pl) / vdot ray_direction (plane_normal pl)))))"
  by (simp add: Plane_intersect_def Let_def)

text \<open>A ray that starts on the plane meets it at distance 0.\<close>

lemma Plane_intersect_at_zero:
  "Plane_intersect \<lparr>plane_point = (0, 0, -4), plane_normal = (0, 0, 1), plane_color = (0, 1, 0)\<rparr>
     (1, 2, -4) (0, 0, -1) = Some (0, (0, 0, 1), (1, 2, -4))"
  by (simp add: Plane_intersect_def)

section \<open>Box intersection\<close>

lemma within_face_components:
  "within_face self n p =
     (case vsub p (vadd (center self) (smul n (side self / 2))) of
        (e1, e2, e3) \<Rightarrow> \<bar>e1\<bar> \<le> side self / 2 \<and> \<bar>e2\<bar> \<le> side self / 2 \<and> \<bar>e3\<bar> \<le> side self / 2)"
  by (cases n; cases p; cases "center self") (simp add: within_face_def)

lemma accepted_hits_Nil [simp]: "accepted_hits self ro rd [] = []"
  by (simp add: accepted_hits_def)

lemma accepted_hits_Cons:
  "accepted_hits self ro rd (pl # pls) =
     (case Plane_intersect pl ro rd of
        None \<Rightarrow> accepted_hits self ro rd pls
      | Some (t, n, p) \<Rightarrow>
          if within_face self n p then (t, n) # accepted_hits self ro rd pls
          else accepted_hits self ro rd pls)"
  by (auto simp add: accepted_hits_def within_face_components split: option.splits prod.splits)

lemma lt_inf_trans: "a < t \<Longrightarrow> lt_inf t md \<Longrightarrow> lt_inf a md"
  by (cases md) auto

lemma lt_inf_below: "\<not> lt_inf t md \<Longrightarrow> lt_inf a md \<Longrightarrow> a < t"
  by (cases md) auto

lemma face_loop_char:
  "face_loop self ro rd pls (md, hp, nm) = (md', hp', nm') \<Longrightarrow>
     (if \<forall>h \<in> set (accepted_hits self ro rd pls). \<not> lt_inf (fst h) md
      then md' = md \<and> nm' = nm
      else \<exists>h \<in> set (accepted_hits self ro rd pls). md' = Some (fst h) \<and> nm' = Some (snd h)
             \<and> lt_inf (fst h) md \<and> (\<forall>h' \<in> set (accepted_hits self ro rd pls). fst h \<le> fst h'))"
proof (induction pls arbitrary: md hp nm)
  case Nil
  then show ?case by simp
next
  case (Cons pl pls)
  let ?acc = "accepted_hits self ro rd pls"
  show ?case
  proof (cases "Plane_intersect pl ro rd")
    case None
    then have "face_loop self ro rd pls (md, hp, nm) = (md', hp', nm')"
      using Cons.prems by simp
    from Cons.IH[OF this] show ?thesis
      using None by (simp add: accepted_hits_Cons)
  next
    case (Some r)
    obtain t n p where r: "r = (t, n, p)" by (cases r)
    show ?thesis
    proof (cases "within_face self n p")
      case False
      then have "face_loop self ro rd pls (md, hp, nm) = (md', hp', nm')"
        using Cons.prems Some r by simp
      from Cons.IH[OF this] show ?thesis
        using Some r False by (simp add: accepted_hits_Cons)
    next
      case wf: True
      have acc: "accepted_hits self ro rd (pl # pls) = (t, n) # ?acc"
        using Some r wf by (simp add: accepted_hits_Cons)
      show ?thesis
      proof (cases "lt_inf t md")
        case False
        then have "face_loop self ro rd pls (md, hp, nm) = (md', hp', nm')"
          using Cons.prems Some r wf by simp
        note ih = Cons.IH[OF this]
        show ?thesis
        proof (cases "\<forall>h \<in> set ?acc. \<not> lt_inf (fst h) md")
          case True
          with ih False show ?thesis unfolding acc by simp
        next
          case ex: False
          from ih[unfolded if_not_P[OF ex]]
          obtain h where h: "h \<in> set ?acc" "md' = Some (fst h)" "nm' = Some (snd h)"
            "lt_inf (fst h) md" "\<forall>h' \<in> set ?acc. fst h \<le> fst h'"
            by blast
          have "fst h < t" using lt_inf_below[OF False h(4)] .
          with h have goal: "\<exists>h \<in> set ((t, n) # ?acc). md' = Some (fst h) \<and> nm' = Some (snd h)
             \<and> lt_inf (fst h) md \<and> (\<forall>h' \<in> set ((t, n) # ?acc). fst h \<le> fst h')"
            by (intro bexI[of _ h]) auto
          have nall: "\<not> (\<forall>h \<in> set ((t, n) # ?acc). \<not> lt_inf (fst h) md)"
            using ex by auto
          show ?thesis unfolding acc by (subst if_not_P[OF nall]) (rule goal)
        qed
      next
        case True
        then have "face_loop self ro rd pls (Some t, Some p, Some n) = (md', hp', nm')"
          using Cons.prems Some r wf by simp
        note ih = Cons.IH[OF this]
        have nall: "\<not> (\<forall>h \<in> set ((t, n) # ?acc). \<not> lt_inf (fst h) md)"
          using True by simp
        show ?thesis
        proof (cases "\<forall>h \<in> set ?acc. \<not> lt_inf (fst h) (Some t)")
          case all: True
          with ih have "md' = Some t" "nm' = Some n" by simp_all
          moreover have "\<forall>h' \<in> set ((t, n) # ?acc). t \<le> fst h'"
            using all by (auto simp: not_less)
          ultimately have goal: "\<exists>h \<in> set ((t, n) # ?acc). md' = Some (fst h) \<and> nm' = Some (snd h)
             \<and> lt_inf (fst h) md \<and> (\<forall>h' \<in> set ((t, n) # ?acc). fst h \<le> fst h')"
            using True by (intro bexI[of _ "(t, n)"]) auto
          show ?thesis unfolding acc by (subst if_not_P[OF nall]) (rule goal)
        next
          case ex: False
          from ih[unfolded if_not_P[OF ex]]
          obtain h where h: "h \<in> set ?acc" "md' = Some (fst h)" "nm' = Some (snd h)"
            "lt_inf (fst h) (Some t)" "\<forall>h' \<in> set ?acc. fst h \<le> fst h'"
            by blast
          have lt: "fst h < t" using h(4) by simp
          have "lt_inf (fst h) md" using lt_inf_trans[OF lt True] .
          with h lt have goal: "\<exists>h \<in> set ((t, n) # ?acc). md' = Some (fst h) \<and> nm' = Some (snd h)
             \<and> lt_inf (fst h) md \<and> (\<forall>h' \<in> set ((t, n) # ?acc). fst h \<le> fst h')"
            by (intro bexI[of _ h]) auto
          show ?thesis unfolding acc by (subst if_not_P[OF nall]) (rule goal)
        qed
      qed
    qed
  qed
qed


lemma accepted_hits_origin:
  "h \<in> set (accepted_hits self ro rd pls) \<Longrightarrow>
     \<exists>pl p. pl \<in> set pls \<and> Plane_intersect pl ro rd = Some (fst h, snd h, p) \<and> within_face self (snd h) p"
proof (induction pls)
  case Nil
  then show ?case by simp
next
  case (Cons pl pls)
  then show ?case
    by (fastforce simp add: accepted_hits_Cons split: option.splits if_splits)
qed

lemma Plane_intersect_Some:
  "Plane_intersect pl ro rd = Some (t, n, p) \<Longrightarrow> 0 \<le> t \<and> n = plane_normal pl"
  by (auto simp add: Plane_intersect_def Let_def split: if_splits)

lemma Cube_intersect_char:
  "(if accepted_hits self ro rd (planes self) = [] then Cube_intersect self ro rd = (None, None)
    else \<exists>h \<in> set (accepted_hits self ro rd (planes self)).
           Cube_intersect self ro rd = (Some (fst h), Some (snd h))
           \<and> (\<forall>h' \<in> set (accepted_hits self ro rd (planes self)). fst h \<le> fst h'))"
proof -
  obtain md' hp' nm' where fl: "face_loop self ro rd (planes self) (None, None, None) = (md', hp', nm')"
    by (cases "face_loop self ro rd (planes self) (None, None, None)")
  have ci: "Cube_intersect self ro rd = (md', nm')"
    by (simp add: Cube_intersect_def fl)
  show ?thesis
  proof (cases "accepted_hits self ro rd (planes self) = []")
    case True
    with face_loop_char[OF fl] ci show ?thesis by simp
  next
    case False
    then have "\<not> (\<forall>h \<in> set (accepted_hits self ro rd (planes self)). \<not> lt_inf (fst h) None)"
      by (cases "accepted_hits self ro rd (planes self)") auto
    from face_loop_char[OF fl, unfolded if_not_P[OF this]] ci False show ?thesis
      by auto
  qed
qed

lemma planes_Cube_init:
  "planes (Cube_init c s col) =
     [ \<lparr> plane_point = vadd c (smul (1, 0, 0) (s / 2)), plane_normal = (1, 0, 0), plane_color = col \<rparr>,
       \<lparr> plane_point = vadd c (smul (-1, 0, 0) (s / 2)), plane_normal = (-1, 0, 0), plane_color = col \<rparr>,
       \<lparr> plane_point = vadd c (smul (0, 1, 0) (s / 2)), plane_normal = (0, 1, 0), plane_color = col \<rparr>,
       \<lparr> plane_point = vadd c (smul (0, -1, 0) (s / 2)), plane_normal = (0, -1, 0), plane_color = col \<rparr>,
       \<lparr> plane_point = vadd c (smul (0, 0, 1) (s / 2)), plane_normal = (0, 0, 1), plane_color = col \<rparr>,
       \<lparr> plane_point = vadd c (smul (0, 0, -1) (s / 2)), plane_normal = (0, 0, -1), plane_color = col \<rparr> ]"
  by (simp add: Cube_init_def Let_def)

lemma Cube_init_normals:
  "pl \<in> set (planes (Cube_init c s col)) \<Longrightarrow>
     plane_normal pl \<in> {(1, 0, 0), (-1, 0, 0), (0, 1, 0), (0, -1, 0), (0, 0, 1), (0, 0, -1)}"
  unfolding planes_Cube_init by auto

text \<open>
  Claim C2. For every ray and every box built by \<open>Cube.__init__\<close>: the box has six face
  planes; \<open>Cube.intersect\<close> runs plane intersection on each of them and accepts a hit only
  if \<open>|hit_point - (center + normal * side/2)| \<le> side/2\<close> holds on all three axes
  (\<open>accepted_hits\<close>); it returns none when no face hit is accepted, and otherwise the
  minimum distance among the accepted hits together with the normal of an accepted face
  at that distance.
\<close>

theorem Cube_intersect_spec:
  fixes c s col ro rd
  defines "box \<equiv> Cube_init c s col"
  defines "acc \<equiv> accepted_hits box ro rd (planes box)"
  shows "length (planes box) = 6 \<and>
     (if acc = [] then Cube_intersect box ro rd = (None, None)
      else \<exists>n. Cube_intersect box ro rd = (Some (Min (fst ` set acc)), Some n)
             \<and> (Min (fst ` set acc), n) \<in> set acc)"
proof -
  have len: "length (planes box) = 6"
    unfolding box_def planes_Cube_init by simp
  have main: "(if acc = [] then Cube_intersect box ro rd = (None, None)
      else \<exists>n. Cube_intersect box ro rd = (Some (Min (fst ` set acc)), Some n)
             \<and> (Min (fst ` set acc), n) \<in> set acc)"
  proof (cases "acc = []")
    case True
    with Cube_intersect_char[of box ro rd] show ?thesis by (simp add: acc_def)
  next
    case False
    with Cube_intersect_char[of box ro rd]
    obtain h where h: "h \<in> set acc" "Cube_intersect box ro rd = (Some (fst h), Some (snd h))"
      "\<forall>h' \<in> set acc. fst h \<le> fst h'"
      unfolding acc_def by auto
    have "Min (fst ` set acc) = fst h"
      using h(1,3) by (intro Min_eqI) auto
    with h False show ?thesis by auto
  qed
  from len main show ?thesis by simp
qed

text \<open>
  Claim C9. For every ray and every box, \<open>Cube.intersect\<close> returns \<open>(None, None)\<close> or a
  distance together with a normal: the distance is at least 0, the normal is one of the
  six axis vectors, and it is the normal of a face plane of the box whose hit, at that
  distance, passed the bound test. A distance never comes without a normal, nor a normal
  without a distance.
\<close>

theorem Cube_intersect_shape:
  "Cube_intersect (Cube_init c s col) ro rd = (None, None) \<or>
   (\<exists>t n pl p. Cube_intersect (Cube_init c s col) ro rd = (Some t, Some n) \<and> 0 \<le> t
      \<and> n \<in> {(1, 0, 0), (-1, 0, 0), (0, 1, 0), (0, -1, 0), (0, 0, 1), (0, 0, -1)}
      \<and> pl \<in> set (planes (Cube_init c s col)) \<and> n = plane_normal pl
      \<and> Plane_intersect pl ro rd = Some (t, n, p) \<and> within_face (Cube_init c s col) n p)"
proof (cases "accepted_hits (Cube_init c s col) ro rd (planes (Cube_init c s col)) = []")
  case True
  with Cube_intersect_char[of "Cube_init c s col" ro rd] show ?thesis by simp
next
  case False
  with Cube_intersect_char[of "Cube_init c s col" ro rd]
  obtain h where h: "h \<in> set (accepted_hits (Cube_init c s col) ro rd (planes (Cube_init c s col)))"
    "Cube_intersect (Cube_init c s col) ro rd = (Some (fst h), Some (snd h))"
    by auto
  from accepted_hits_origin[OF h(1)] obtain pl p where
    pl: "pl \<in> set (planes (Cube_init c s col))" "Plane_intersect pl ro rd = Some (fst h, snd h, p)"
      "within_face (Cube_init c s col) (snd h) p"
    by blast
  from Plane_intersect_Some[OF pl(2)] have t: "0 \<le> fst h" and n: "snd h = plane_normal pl" by simp_all
  from Cube_init_normals[OF pl(1)] n
  have "snd h \<in> {(1, 0, 0), (-1, 0, 0), (0, 1, 0), (0, -1, 0), (0, 0, 1), (0, 0, -1)}" by simp
  with h(2) pl t n show ?thesis by blast
qed

section \<open>The face bound test\<close>

lemma hit_on_plane:
  assumes "Plane_intersect pl ro rd = Some (t, n, p)"
  shows "vdot (vsub p (plane_point pl)) (plane_normal pl) = 0 \<and> n = plane_normal pl"
proof -
  obtain r1 r2 r3 where ro: "ro = (r1, r2, r3)" by (cases ro)
  obtain d1 d2 d3 where rd: "rd = (d1, d2, d3)" by (cases rd)
  obtain q1 q2 q3 where pp: "plane_point pl = (q1, q2, q3)" by (cases "plane_point pl")
  obtain n1 n2 n3 where pn: "plane_normal pl = (n1, n2, n3)" by (cases "plane_normal pl")
  let ?den = "d1 * n1 + d2 * n2 + d3 * n3"
  let ?num = "(q1 - r1) * n1 + (q2 - r2) * n2 + (q3 - r3) * n3"
  from assms have den: "?den \<noteq> 0" and t: "t = ?num / ?den"
    and p: "p = (r1 + d1 * t, r2 + d2 * t, r3 + d3 * t)" and n: "n = plane_normal pl"
    by (auto simp add: Plane_intersect_def Let_def ro rd pp pn split: if_splits)
  have "t * ?den = ?num" using den t by simp
  then have "(r1 + d1 * t - q1) * n1 + (r2 + d2 * t - q2) * n2 + (r3 + d3 * t - q3) * n3 = 0"
    by (simp add: algebra_simps)
  then show ?thesis using p pp pn n by simp
qed

lemma abs_half_nonneg: "\<bar>x\<bar> \<le> s / 2 \<Longrightarrow> 0 \<le> (s::real)"
  by linarith

lemma abs_twice_nonneg: "\<bar>x\<bar> * 2 \<le> s \<Longrightarrow> 0 \<le> (s::real)"
  by linarith

lemma face_test_agree:
  assumes pl: "pl \<in> set (planes (Cube_init c s col))"
    and hit: "Plane_intersect pl ro rd = Some (t, n, p)"
  shows "within_face (Cube_init c s col) n p = exact_face_test (Cube_init c s col) n p"
proof -
  obtain c1 c2 c3 where c: "c = (c1, c2, c3)" by (cases c)
  obtain p1 p2 p3 where p: "p = (p1, p2, p3)" by (cases p)
  have cs: "center (Cube_init c s col) = c" "side (Cube_init c s col) = s"
    by (simp_all add: Cube_init_def Let_def)
  note on = hit_on_plane[OF hit]
  from pl consider
      "plane_normal pl = (1, 0, 0)" "plane_point pl = (c1 + s / 2, c2, c3)"
    | "plane_normal pl = (-1, 0, 0)" "plane_point pl = (c1 - s / 2, c2, c3)"
    | "plane_normal pl = (0, 1, 0)" "plane_point pl = (c1, c2 + s / 2, c3)"
    | "plane_normal pl = (0, -1, 0)" "plane_point pl = (c1, c2 - s / 2, c3)"
    | "plane_normal pl = (0, 0, 1)" "plane_point pl = (c1, c2, c3 + s / 2)"
    | "plane_normal pl = (0, 0, -1)" "plane_point pl = (c1, c2, c3 - s / 2)"
    unfolding planes_Cube_init c by auto
  then show ?thesis
  proof cases
    case 1
    with on have "p1 = c1 + s / 2" "n = (1, 0, 0)" using p by simp_all
    then show ?thesis unfolding within_face_def exact_face_test_def cs using c p by (auto dest: abs_half_nonneg abs_twice_nonneg)
  next
    case 2
    with on have "p1 = c1 - s / 2" "n = (-1, 0, 0)" using p by simp_all
    then show ?thesis unfolding within_face_def exact_face_test_def cs using c p by (auto dest: abs_half_nonneg abs_twice_nonneg)
  next
    case 3
    with on have "p2 = c2 + s / 2" "n = (0, 1, 0)" using p by simp_all
    then show ?thesis unfolding within_face_def exact_face_test_def cs using c p by (auto dest: abs_half_nonneg abs_twice_nonneg)
  next
    case 4
    with on have "p2 = c2 - s / 2" "n = (0, -1, 0)" using p by simp_all
    then show ?thesis unfolding within_face_def exact_face_test_def cs using c p by (auto dest: abs_half_nonneg abs_twice_nonneg)
  next
    case 5
    with on have "p3 = c3 + s / 2" "n = (0, 0, 1)" using p by simp_all
    then show ?thesis unfolding within_face_def exact_face_test_def cs using c p by (auto dest: abs_half_nonneg abs_twice_nonneg)
  next
    case 6
    with on have "p3 = c3 - s / 2" "n = (0, 0, -1)" using p by simp_all
    then show ?thesis unfolding within_face_def exact_face_test_def cs using c p by (auto dest: abs_half_nonneg abs_twice_nonneg)
  qed
qed

text \<open>
  Claim C8 says that the face bound test of \<open>Cube.intersect\<close> differs, for some ray and box,
  from the exact face test on the two axes orthogonal to the face normal. As amended: for
  every box, every face plane of it and every ray, the hit point that \<open>Plane.intersect\<close>
  returns lies on the face plane, the reference point \<open>center + normal * side/2\<close> is the
  centre of that face, and the test of the code decides exactly as the exact face test
  does.
\<close>

theorem face_bound_exact:
  assumes "pl \<in> set (planes (Cube_init c s col))"
    and "Plane_intersect pl ray_origin ray_direction = Some (t, n, p)"
  shows "within_face (Cube_init c s col) n p = exact_face_test (Cube_init c s col) n p"
  using assms by (rule face_test_agree)

text \<open>An off-centre ray that misses the front face: both tests reject it.\<close>

theorem face_bound_exact_witness:
  "\<lparr>plane_point = (0, 0, -4), plane_normal = (0, 0, 1), plane_color = (0, 1, 0)\<rparr>
      \<in> set (planes (Cube_init (0, 0, -5) 2 (0, 1, 0)))
   \<and> Plane_intersect \<lparr>plane_point = (0, 0, -4), plane_normal = (0, 0, 1), plane_color = (0, 1, 0)\<rparr>
        (0, 0, 0) (0.3, 0, -1) = Some (4, (0, 0, 1), (1.2, 0, -4))
   \<and> within_face (Cube_init (0, 0, -5) 2 (0, 1, 0)) (0, 0, 1) (1.2, 0, -4)
        = exact_face_test (Cube_init (0, 0, -5) 2 (0, 1, 0)) (0, 0, 1) (1.2, 0, -4)
   \<and> \<not> within_face (Cube_init (0, 0, -5) 2 (0, 1, 0)) (0, 0, 1) (1.2, 0, -4)"
proof -
  have a: "\<lparr>plane_point = (0, 0, -4), plane_normal = (0, 0, 1), plane_color = (0, 1, 0)\<rparr>
      \<in> set (planes (Cube_init (0, 0, -5) 2 (0, 1, 0)))"
    by (simp add: planes_Cube_init)
  have b: "Plane_intersect \<lparr>plane_point = (0, 0, -4), plane_normal = (0, 0, 1), plane_color = (0, 1, 0)\<rparr>
        (0, 0, 0) (0.3, 0, -1) = Some (4, (0, 0, 1), (1.2, 0, -4))"
    by (simp add: Plane_intersect_def)
  have c: "\<not> within_face (Cube_init (0, 0, -5) 2 (0, 1, 0)) (0, 0, 1) (1.2, 0, -4)"
    by (simp add: within_face_def Cube_init_def)
  from a b c face_bound_exact[OF a b] show ?thesis by blast
qed

text \<open>Claim C8 as stated is false over the reals: no ray and no box make the two tests
  differ on a hit point of a face plane.\<close>

theorem face_bound_counterexample:
  "\<not> (\<exists>c s col ray_origin ray_direction pl t n p.
         pl \<in> set (planes (Cube_init c s col))
         \<and> Plane_intersect pl ray_origin ray_direction = Some (t, n, p)
         \<and> within_face (Cube_init c s col) n p \<noteq> exact_face_test (Cube_init c s col) n p)"
  using face_test_agree by blast

section \<open>Shading\<close>

lemma norm_vec_zero_iff: "norm_vec v = 0 \<longleftrightarrow> v = (0, 0, 0)"
proof (cases v)
  case (fields a b c)
  have "a * a + b * b + c * c = 0 \<longleftrightarrow> a = 0 \<and> b = 0 \<and> c = 0"
    using sum_squares_eq_zero_iff[of a b] 
    by (smt (verit) mult_eq_0_iff zero_le_square)
  then show ?thesis using fields by simp
qed

lemma vsub_zero_iff: "vsub a b = (0, 0, 0) \<longleftrightarrow> a = b"
  by (cases a; cases b) auto

lemma compute_lighting_None_iff:
  "compute_lighting p n l = None \<longleftrightarrow> p = position l"
  by (auto simp add: compute_lighting_def Let_def vdivs_def norm_vec_zero_iff vsub_zero_iff)

lemma cauchy_schwarz3: "(vdot a b)\<^sup>2 \<le> (norm_vec a)\<^sup>2 * (norm_vec b)\<^sup>2"
proof (cases a; cases b)
  fix a1 a2 a3 b1 b2 b3
  assume a: "a = (a1, a2, a3)" and b: "b = (b1, b2, b3)"
  have "(a1 * a1 + a2 * a2 + a3 * a3) * (b1 * b1 + b2 * b2 + b3 * b3) - (a1 * b1 + a2 * b2 + a3 * b3)\<^sup>2
      = (a1 * b2 - a2 * b1)\<^sup>2 + (a1 * b3 - a3 * b1)\<^sup>2 + (a2 * b3 - a3 * b2)\<^sup>2"
    by (simp add: power2_eq_square algebra_simps)
  moreover have "0 \<le> (a1 * b2 - a2 * b1)\<^sup>2 + (a1 * b3 - a3 * b1)\<^sup>2 + (a2 * b3 - a3 * b2)\<^sup>2"
    by simp
  ultimately have "(a1 * b1 + a2 * b2 + a3 * b3)\<^sup>2
      \<le> (a1 * a1 + a2 * a2 + a3 * a3) * (b1 * b1 + b2 * b2 + b3 * b3)"
    by linarith
  moreover have "0 \<le> a1 * a1 + a2 * a2 + a3 * a3" "0 \<le> b1 * b1 + b2 * b2 + b3 * b3"
    by simp_all
  ultimately show ?thesis using a b by simp
qed

lemma norm_vec_nonneg: "0 \<le> norm_vec v"
  by (cases v) simp

lemma vdot_le_norm: "norm_vec n = 1 \<Longrightarrow> vdot v n \<le> norm_vec v"
proof -
  assume n: "norm_vec n = 1"
  have "(vdot v n)\<^sup>2 \<le> (norm_vec v)\<^sup>2" using cauchy_schwarz3[of v n] n by simp
  then have "\<bar>vdot v n\<bar> \<le> \<bar>norm_vec v\<bar>" by (simp add: abs_le_square_iff)
  then show ?thesis using norm_vec_nonneg[of v] by linarith
qed

lemma vdot_sdiv: "vdot (sdiv v s) n = vdot v n / s"
  by (cases v; cases n) (simp add: add_divide_distrib)

lemma lambert_range:
  assumes n: "norm_vec n = 1" and i: "0 \<le> intensity l" and p: "p \<noteq> position l"
  shows "\<exists>v. compute_lighting p n l = Some v \<and> 0 \<le> v \<and> v \<le> intensity l"
proof -
  let ?d = "vsub (position l) p"
  have nz: "norm_vec ?d \<noteq> 0" using p by (auto simp add: norm_vec_zero_iff vsub_zero_iff)
  then have pos: "0 < norm_vec ?d" using norm_vec_nonneg[of ?d] by linarith
  have cl: "compute_lighting p n l = Some (max (vdot ?d n / norm_vec ?d) 0 * intensity l)"
    using nz by (simp add: compute_lighting_def Let_def vdivs_def vdot_sdiv)
  have "vdot ?d n / norm_vec ?d \<le> 1"
    using vdot_le_norm[OF n, of ?d] pos by (simp add: divide_le_eq)
  then have m: "0 \<le> max (vdot ?d n / norm_vec ?d) 0" "max (vdot ?d n / norm_vec ?d) 0 \<le> 1"
    by simp_all
  have "max (vdot ?d n / norm_vec ?d) 0 * intensity l \<le> 1 * intensity l"
    using m(2) i by (rule mult_right_mono)
  moreover have "0 \<le> max (vdot ?d n / norm_vec ?d) 0 * intensity l"
    using m(1) i by simp
  ultimately show ?thesis using cl by simp
qed

text \<open>
  Claim C10. \<open>compute_lighting\<close> divides by the length of \<open>light.position - point\<close> with no
  guard: that length is zero exactly when the point is the light position, and exactly
  there the result is not a number.
\<close>

theorem compute_lighting_zero_divisor:
  "(norm_vec (vsub (position scene_light) point) = 0) = (point = position scene_light)
   \<and> (compute_lighting point normal scene_light = None) = (point = position scene_light)"
  by (auto simp add: compute_lighting_None_iff norm_vec_zero_iff vsub_zero_iff)

text \<open>
  Claim C6, as amended: for every hit point other than the light position, every unit
  normal (the six face normals of a box among them) and every light of non-negative
  intensity, the lambertian term is a number in \<open>[0, light.intensity]\<close>, and with the
  ambient constant added it is in \<open>[0, light.intensity + 0.1]\<close>.
\<close>

theorem lighting_range:
  assumes "norm_vec normal = 1" and "0 \<le> intensity scene_light" and "point \<noteq> position scene_light"
  shows "\<exists>v. compute_lighting point normal scene_light = Some v
            \<and> 0 \<le> v \<and> v \<le> intensity scene_light
            \<and> 0 \<le> v + ambient_light \<and> v + ambient_light \<le> intensity scene_light + ambient_light"
proof -
  from lambert_range[OF assms] obtain v where
    "compute_lighting point normal scene_light = Some v" "0 \<le> v" "v \<le> intensity scene_light"
    by blast
  then show ?thesis by (simp add: ambient_light_def)
qed

theorem lighting_range_witness:
  "norm_vec (0, 0, 1) = 1 \<and> (0::real) \<le> intensity \<lparr>position = (-3, -4, -10), intensity = 1.5\<rparr>
   \<and> (0, 0, -4) \<noteq> position \<lparr>position = (-3, -4, -10), intensity = 1.5\<rparr>
   \<and> (\<exists>v. compute_lighting (0, 0, -4) (0, 0, 1) \<lparr>position = (-3, -4, -10), intensity = 1.5\<rparr> = Some v
            \<and> 0 \<le> v \<and> v \<le> 1.5 \<and> 0 \<le> v + ambient_light \<and> v + ambient_light \<le> 1.5 + ambient_light)"
  using lighting_range[of "(0, 0, 1)" "\<lparr>position = (-3, -4, -10), intensity = 1.5\<rparr>" "(0, 0, -4)"]
  by simp

text \<open>Claim C6 as stated, for every hit point, fails where the hit point is the light
  position: the front face of the cube of side 2 at \<open>(0, 0, -5)\<close> is hit at \<open>(0, 0, -4)\<close>,
  and with the light there no number is returned.\<close>

theorem lighting_range_counterexample:
  "norm_vec (0, 0, 1) = 1 \<and> (0::real) \<le> 1.5
   \<and> \<not> (\<exists>v. compute_lighting (0, 0, -4) (0, 0, 1) \<lparr>position = (0, 0, -4), intensity = 1.5\<rparr> = Some v
            \<and> 0 \<le> v \<and> v \<le> 1.5)"
  by (simp add: compute_lighting_def vdivs_def)

section \<open>Camera rays\<close>

lemma norm_camera_ge1: "1 \<le> norm_vec (a, b, -1)"
proof -
  have "1 \<le> a * a + b * b + 1" by (simp add: add_nonneg_nonneg)
  then have "sqrt 1 \<le> sqrt (a * a + b * b + 1)" by (simp only: real_sqrt_le_iff)
  then show ?thesis by simp
qed

lemma norm_vec_sdiv: "0 < s \<Longrightarrow> norm_vec (sdiv v s) = norm_vec v / s"
proof (cases v)
  case (fields a b c)
  assume s: "0 < s"
  have "a / s * (a / s) + b / s * (b / s) + c / s * (c / s) = (a * a + b * b + c * c) / (s * s)"
    by (simp add: add_divide_distrib)
  then have "norm_vec (sdiv v s) = sqrt ((a * a + b * b + c * c) / (s * s))"
    using fields by simp
  also have "\<dots> = sqrt (a * a + b * b + c * c) / s"
    using s by (simp add: real_sqrt_divide real_sqrt_mult)
  finally show ?thesis using fields by simp
qed

lemma vdivs_camera: "vdivs (a, b, -1) (norm_vec (a, b, -1)) = Some (normalize (a, b, -1))"
proof -
  have "norm_vec (a, b, -1) \<noteq> 0" using norm_camera_ge1[of a b] by linarith
  then show ?thesis unfolding vdivs_def normalize_def by (simp only: if_False)
qed

lemma ray_from_camera_char:
  assumes "0 < w" "0 < h"
  shows "ray_from_camera cam x y w h fov =
     Inr (cam, Some (normalize
        ((2 * (real x + 0.5) / real w - 1) * (real w / real h) * tan (fov / 2 * pi / 180),
         (1 - 2 * (real y + 0.5) / real h) * tan (fov / 2 * pi / 180),
         -1)))"
proof -
  have t: "fov * 0.5 * pi / 180 = fov / 2 * pi / 180" by simp
  have w: "w \<noteq> 0" and h: "h \<noteq> 0" using assms by simp_all
  show ?thesis
    unfolding ray_from_camera_def Let_def t vdivs_camera
    using w h by (simp only: if_False)
qed

lemma normalize_unit: "norm_vec (normalize (a, b, -1)) = 1"
proof -
  have "0 < norm_vec (a, b, -1)" using norm_camera_ge1[of a b] by linarith
  then show ?thesis unfolding normalize_def by (simp only: norm_vec_sdiv) simp
qed

text \<open>
  Claim C5. For every pixel of an image of positive width and height and every field of
  view, the ray has the camera position as its origin and the direction
  \<open>normalize((ndc_x, ndc_y, -1))\<close>, with
  \<open>ndc_x = (2 * (x + 0.5) / width - 1) * (width / height) * tan(fov/2 in radians)\<close> and
  \<open>ndc_y = (1 - 2 * (y + 0.5) / height) * tan(fov/2 in radians)\<close>; the normalisation never
  divides by zero and the direction has length 1.
\<close>

theorem ray_from_camera_spec:
  assumes "0 < image_width" and "0 < image_height"
  shows "ray_from_camera camera_position x y image_width image_height fov =
     Inr (camera_position, Some (normalize
        ((2 * (real x + 0.5) / real image_width - 1) * (real image_width / real image_height)
            * tan (fov / 2 * pi / 180),
         (1 - 2 * (real y + 0.5) / real image_height) * tan (fov / 2 * pi / 180),
         -1)))
   \<and> norm_vec (normalize
        ((2 * (real x + 0.5) / real image_width - 1) * (real image_width / real image_height)
            * tan (fov / 2 * pi / 180),
         (1 - 2 * (real y + 0.5) / real image_height) * tan (fov / 2 * pi / 180),
         -1)) = 1"
  using ray_from_camera_char[OF assms] normalize_unit by blast

theorem ray_from_camera_spec_witness:
  "(0::nat) < 800 \<and> (0::nat) < 600
   \<and> ray_from_camera (22, -2, 0) 0 0 800 600 90 =
       Inr ((22, -2, 0), Some (normalize ((2 * (real 0 + 0.5) / real 800 - 1) * (real 800 / real 600) * tan (90 / 2 * pi / 180),
         (1 - 2 * (real 0 + 0.5) / real 600) * tan (90 / 2 * pi / 180), -1)))"
  using ray_from_camera_spec[of 800 600 "(22, -2, 0)" 0 0 90] by simp

text \<open>With a width or a height of 0 the function raises; \<open>render\<close> never calls it so,
  since its loops are then empty.\<close>

lemma ray_from_camera_raises:
  "ray_from_camera camera_position x y image_width 0 fov = Inl ZeroDivisionError"
  "ray_from_camera camera_position x y 0 image_height fov = Inl ZeroDivisionError"
  by (simp_all add: ray_from_camera_def)

section \<open>Nearest hit over the scene\<close>

lemma scene_loop_char:
  "scene_loop ro rd objs (co, md, hc, hn) = (co', md', hc', hn') \<Longrightarrow>
     ((\<forall>obj \<in> set objs. \<forall>t. fst (Cube_intersect obj ro rd) = Some t \<longrightarrow> \<not> lt_inf t md)
        \<and> co' = co \<and> md' = md \<and> hn' = hn)
     \<or> (\<exists>pre obj post t.
           objs = pre @ obj # post \<and> fst (Cube_intersect obj ro rd) = Some t \<and> lt_inf t md
           \<and> co' = Some obj \<and> md' = Some t \<and> hn' = Some (snd (Cube_intersect obj ro rd))
           \<and> (\<forall>o' \<in> set pre. \<forall>t'. fst (Cube_intersect o' ro rd) = Some t' \<longrightarrow> t < t')
           \<and> (\<forall>o' \<in> set post. \<forall>t'. fst (Cube_intersect o' ro rd) = Some t' \<longrightarrow> t \<le> t'))"
  (is "_ \<Longrightarrow> ?none objs md co hn \<or> ?some objs md")
proof (induction objs arbitrary: co md hc hn)
  case Nil
  then show ?case by simp
next
  case (Cons x xs)
  obtain dx nx where ci: "Cube_intersect x ro rd = (dx, nx)" by (cases "Cube_intersect x ro rd")
  show ?case
  proof (cases dx)
    case None
    then have step: "scene_loop ro rd xs (co, md, hc, hn) = (co', md', hc', hn')"
      using Cons.prems ci by simp
    from Cons.IH[OF step] show ?thesis
    proof
      assume "?none xs md co hn"
      then have "?none (x # xs) md co hn" using ci None by simp
      then show ?thesis ..
    next
      assume "?some xs md"
      then obtain pre obj post t where h: "xs = pre @ obj # post"
        "fst (Cube_intersect obj ro rd) = Some t" "lt_inf t md"
        "co' = Some obj" "md' = Some t" "hn' = Some (snd (Cube_intersect obj ro rd))"
        "\<forall>o' \<in> set pre. \<forall>t'. fst (Cube_intersect o' ro rd) = Some t' \<longrightarrow> t < t'"
        "\<forall>o' \<in> set post. \<forall>t'. fst (Cube_intersect o' ro rd) = Some t' \<longrightarrow> t \<le> t'"
        by blast
      have "x # xs = (x # pre) @ obj # post" using h(1) by simp
      moreover have "\<forall>o' \<in> set (x # pre). \<forall>t'. fst (Cube_intersect o' ro rd) = Some t' \<longrightarrow> t < t'"
        using h(7) ci None by simp
      ultimately have "?some (x # xs) md" using h(2-6,8) by blast
      then show ?thesis ..
    qed
  next
    case (Some tx)
    show ?thesis
    proof (cases "lt_inf tx md")
      case False
      then have step: "scene_loop ro rd xs (co, md, hc, hn) = (co', md', hc', hn')"
        using Cons.prems ci Some by simp
      from Cons.IH[OF step] show ?thesis
      proof
        assume "?none xs md co hn"
        then have "?none (x # xs) md co hn" using ci Some False by simp
        then show ?thesis ..
      next
        assume "?some xs md"
        then obtain pre obj post t where h: "xs = pre @ obj # post"
          "fst (Cube_intersect obj ro rd) = Some t" "lt_inf t md"
          "co' = Some obj" "md' = Some t" "hn' = Some (snd (Cube_intersect obj ro rd))"
          "\<forall>o' \<in> set pre. \<forall>t'. fst (Cube_intersect o' ro rd) = Some t' \<longrightarrow> t < t'"
          "\<forall>o' \<in> set post. \<forall>t'. fst (Cube_intersect o' ro rd) = Some t' \<longrightarrow> t \<le> t'"
          by blast
        have "t < tx" using lt_inf_below[OF False h(3)] .
        then have "\<forall>o' \<in> set (x # pre). \<forall>t'. fst (Cube_intersect o' ro rd) = Some t' \<longrightarrow> t < t'"
          using h(7) ci Some by simp
        moreover have "x # xs = (x # pre) @ obj # post" using h(1) by simp
        ultimately have "?some (x # xs) md" using h(2-6,8) by blast
        then show ?thesis ..
      qed
    next
      case True
      then have step: "scene_loop ro rd xs (Some x, Some tx, hc + 1, Some nx) = (co', md', hc', hn')"
        using Cons.prems ci Some by simp
      from Cons.IH[OF step] show ?thesis
      proof
        assume a: "?none xs (Some tx) (Some x) (Some nx)"
        have "x # xs = [] @ x # xs" by simp
        moreover have "\<forall>o' \<in> set xs. \<forall>t'. fst (Cube_intersect o' ro rd) = Some t' \<longrightarrow> tx \<le> t'"
          using a by (auto simp: not_less)
        moreover have "fst (Cube_intersect x ro rd) = Some tx" "hn' = Some (snd (Cube_intersect x ro rd))"
          "co' = Some x" "md' = Some tx"
          using a ci Some by simp_all
        moreover have "\<forall>o' \<in> set []. \<forall>t'. fst (Cube_intersect o' ro rd) = Some t' \<longrightarrow> tx < t'"
          by simp
        ultimately have "?some (x # xs) md" using True by blast
        then show ?thesis ..
      next
        assume "?some xs (Some tx)"
        then obtain pre obj post t where h: "xs = pre @ obj # post"
          "fst (Cube_intersect obj ro rd) = Some t" "lt_inf t (Some tx)"
          "co' = Some obj" "md' = Some t" "hn' = Some (snd (Cube_intersect obj ro rd))"
          "\<forall>o' \<in> set pre. \<forall>t'. fst (Cube_intersect o' ro rd) = Some t' \<longrightarrow> t < t'"
          "\<forall>o' \<in> set post. \<forall>t'. fst (Cube_intersect o' ro rd) = Some t' \<longrightarrow> t \<le> t'"
          by blast
        have lt: "t < tx" using h(3) by simp
        have l: "lt_inf t md" using lt_inf_trans[OF lt True] .
        have "\<forall>o' \<in> set (x # pre). \<forall>t'. fst (Cube_intersect o' ro rd) = Some t' \<longrightarrow> t < t'"
          using h(7) ci Some lt by simp
        moreover have "x # xs = (x # pre) @ obj # post" using h(1) by simp
        ultimately have "?some (x # xs) md" using h(2,4-6,8) l by blast
        then show ?thesis ..
      qed
    qed
  qed
qed

lemma Cube_intersect_both:
  assumes "fst (Cube_intersect obj ro rd) = Some t"
  shows "\<exists>n. Cube_intersect obj ro rd = (Some t, Some n)"
proof (cases "accepted_hits obj ro rd (planes obj) = []")
  case True
  with Cube_intersect_char[of obj ro rd] assms show ?thesis by simp
next
  case False
  with Cube_intersect_char[of obj ro rd]
  obtain h where "Cube_intersect obj ro rd = (Some (fst h), Some (snd h))" by auto
  with assms show ?thesis by (intro exI[of _ "snd h"]) simp
qed

lemma scene_loop_proj:
  "fst (scene_loop ro rd objs (co, md, hc, hn)) = fst (scene_loop ro rd objs (co, md, hc2, hn2))
   \<and> fst (snd (scene_loop ro rd objs (co, md, hc, hn))) = fst (snd (scene_loop ro rd objs (co, md, hc2, hn2)))"
proof (induction objs arbitrary: co md hc hn hc2 hn2)
  case Nil
  show ?case by simp
next
  case (Cons x xs)
  obtain dx nx where ci: "Cube_intersect x ro rd = (dx, nx)" by (cases "Cube_intersect x ro rd")
  show ?case
  proof (cases dx)
    case None
    then show ?thesis using ci Cons.IH[of co md hc hn hc2 hn2] by simp
  next
    case (Some tx)
    show ?thesis
    proof (cases "lt_inf tx md")
      case True
      then show ?thesis
        using ci Some Cons.IH[of "Some x" "Some tx" "hc + 1" "Some nx" "hc2 + 1" "Some nx"] by simp
    next
      case False
      then show ?thesis using ci Some Cons.IH[of co md hc hn hc2 hn2] by simp
    qed
  qed
qed

lemma scene_loop_fresh:
  assumes "scene_loop ro rd scene (None, None, hc, hn) = (co', md', hc', hn')"
  shows "(co' = None \<and> md' = None \<and> hn' = hn
          \<and> (\<forall>obj \<in> set scene. fst (Cube_intersect obj ro rd) = None))
       \<or> (\<exists>pre obj post t n.
             scene = pre @ obj # post \<and> Cube_intersect obj ro rd = (Some t, Some n)
             \<and> co' = Some obj \<and> md' = Some t \<and> hn' = Some (Some n)
             \<and> (\<forall>o' \<in> set pre. \<forall>t'. fst (Cube_intersect o' ro rd) = Some t' \<longrightarrow> t < t')
             \<and> (\<forall>o' \<in> set post. \<forall>t'. fst (Cube_intersect o' ro rd) = Some t' \<longrightarrow> t \<le> t'))"
proof -
  from scene_loop_char[OF assms] show ?thesis
  proof
    assume a: "(\<forall>obj \<in> set scene. \<forall>t. fst (Cube_intersect obj ro rd) = Some t \<longrightarrow> \<not> lt_inf t None)
        \<and> co' = None \<and> md' = None \<and> hn' = hn"
    then have "\<forall>obj \<in> set scene. fst (Cube_intersect obj ro rd) = None"
      by (metis lt_inf.simps(1) not_Some_eq)
    with a show ?thesis by blast
  next
    assume "\<exists>pre obj post t.
           scene = pre @ obj # post \<and> fst (Cube_intersect obj ro rd) = Some t \<and> lt_inf t None
           \<and> co' = Some obj \<and> md' = Some t \<and> hn' = Some (snd (Cube_intersect obj ro rd))
           \<and> (\<forall>o' \<in> set pre. \<forall>t'. fst (Cube_intersect o' ro rd) = Some t' \<longrightarrow> t < t')
           \<and> (\<forall>o' \<in> set post. \<forall>t'. fst (Cube_intersect o' ro rd) = Some t' \<longrightarrow> t \<le> t')"
    then obtain pre obj post t where h: "scene = pre @ obj # post"
      "fst (Cube_intersect obj ro rd) = Some t"
      "co' = Some obj" "md' = Some t" "hn' = Some (snd (Cube_intersect obj ro rd))"
      "\<forall>o' \<in> set pre. \<forall>t'. fst (Cube_intersect o' ro rd) = Some t' \<longrightarrow> t < t'"
      "\<forall>o' \<in> set post. \<forall>t'. fst (Cube_intersect o' ro rd) = Some t' \<longrightarrow> t \<le> t'"
      by blast
    from Cube_intersect_both[OF h(2)] obtain n where n: "Cube_intersect obj ro rd = (Some t, Some n)"
      by blast
    then have "hn' = Some (Some n)" using h(5) by simp
    with h n show ?thesis by blast
  qed
qed

lemma resolve_char:
  "(resolve scene ro rd = (None, None, None)
          \<and> (\<forall>obj \<in> set scene. fst (Cube_intersect obj ro rd) = None))
       \<or> (\<exists>pre obj post t n.
             scene = pre @ obj # post \<and> Cube_intersect obj ro rd = (Some t, Some n)
             \<and> resolve scene ro rd = (Some obj, Some t, Some (Some n))
             \<and> (\<forall>o' \<in> set pre. \<forall>t'. fst (Cube_intersect o' ro rd) = Some t' \<longrightarrow> t < t')
             \<and> (\<forall>o' \<in> set post. \<forall>t'. fst (Cube_intersect o' ro rd) = Some t' \<longrightarrow> t \<le> t'))"
proof -
  obtain co' md' hc' hn' where sl: "scene_loop ro rd scene (None, None, 0, None) = (co', md', hc', hn')"
    by (cases "scene_loop ro rd scene (None, None, 0, None)")
  have r: "resolve scene ro rd = (co', md', hn')" by (simp add: resolve_def sl)
  from scene_loop_fresh[OF sl] show ?thesis unfolding r by blast
qed

lemma scene_loop_resolve:
  assumes sl: "scene_loop ro rd scene (None, None, hc, hn) = (co', md', hc', hn')"
  shows "(co' = None \<and> hn' = hn \<and> fst (resolve scene ro rd) = None)
       \<or> (\<exists>obj t n. co' = Some obj \<and> md' = Some t \<and> hn' = Some (Some n)
             \<and> resolve scene ro rd = (Some obj, Some t, Some (Some n)))"
proof -
  obtain co2 md2 hc2 hn2 where sl2: "scene_loop ro rd scene (None, None, 0, None) = (co2, md2, hc2, hn2)"
    by (cases "scene_loop ro rd scene (None, None, 0, None)")
  have r: "resolve scene ro rd = (co2, md2, hn2)" by (simp add: resolve_def sl2)
  from scene_loop_proj[of ro rd scene None None hc hn 0 None] sl sl2
  have eq: "co2 = co'" "md2 = md'" by simp_all
  from scene_loop_fresh[OF sl] show ?thesis
  proof
    assume "co' = None \<and> md' = None \<and> hn' = hn
          \<and> (\<forall>obj \<in> set scene. fst (Cube_intersect obj ro rd) = None)"
    then show ?thesis using r eq by simp
  next
    assume "\<exists>pre obj post t n.
             scene = pre @ obj # post \<and> Cube_intersect obj ro rd = (Some t, Some n)
             \<and> co' = Some obj \<and> md' = Some t \<and> hn' = Some (Some n)
             \<and> (\<forall>o' \<in> set pre. \<forall>t'. fst (Cube_intersect o' ro rd) = Some t' \<longrightarrow> t < t')
             \<and> (\<forall>o' \<in> set post. \<forall>t'. fst (Cube_intersect o' ro rd) = Some t' \<longrightarrow> t \<le> t')"
    then obtain obj t n where h: "Cube_intersect obj ro rd = (Some t, Some n)"
      "co' = Some obj" "md' = Some t" "hn' = Some (Some n)" by blast
    from scene_loop_fresh[OF sl2] eq h have "hn2 = Some (Some n)"
      by auto
    with h r eq show ?thesis by simp
  qed
qed

lemma Cube_intersect_front:
  "Cube_intersect (Cube_init (0, 0, -5) 2 col) (0, 0, 0) (0, 0, -1) = (Some 4, Some (0, 0, 1))"
  by (simp add: Cube_intersect_def planes_Cube_init Plane_intersect_def within_face_def
      Cube_init_def Let_def)

text \<open>
  Claim C4. For every scene and every ray: when no object reports a hit the resolver
  returns none; otherwise it returns an object of the scene with the distance and the
  normal that its \<open>intersect\<close> reports, that distance is the minimum over all objects that
  report a hit, and every object before it in the scene that reports a hit is strictly
  farther: of the objects at the minimal distance, the first in iteration order wins.
\<close>

theorem resolve_nearest_first:
  "if \<forall>obj \<in> set scene. fst (Cube_intersect obj origin direction) = None
   then resolve scene origin direction = (None, None, None)
   else \<exists>pre obj post t n.
          scene = pre @ obj # post \<and> Cube_intersect obj origin direction = (Some t, Some n)
          \<and> resolve scene origin direction = (Some obj, Some t, Some (Some n))
          \<and> (\<forall>o' \<in> set pre. \<forall>t'. fst (Cube_intersect o' origin direction) = Some t' \<longrightarrow> t < t')
          \<and> (\<forall>o' \<in> set post. \<forall>t'. fst (Cube_intersect o' origin direction) = Some t' \<longrightarrow> t \<le> t')"
proof (cases "\<forall>obj \<in> set scene. fst (Cube_intersect obj origin direction) = None")
  case True
  have "\<not> (\<exists>pre obj post t n. scene = pre @ obj # post
           \<and> Cube_intersect obj origin direction = (Some t, Some n))"
    using True by auto
  with resolve_char[of scene origin direction] True show ?thesis by auto
next
  case False
  with resolve_char[of scene origin direction] show ?thesis
    by (simp only: if_False) blast
qed

text \<open>Two boxes at the same place, hit at the same distance 4: the first one is returned.\<close>

theorem resolve_nearest_first_witness:
  "resolve [Cube_init (0, 0, -5) 2 (0, 1, 0), Cube_init (0, 0, -5) 2 (1, 0, 0)] (0, 0, 0) (0, 0, -1)
     = (Some (Cube_init (0, 0, -5) 2 (0, 1, 0)), Some 4, Some (Some (0, 0, 1)))
   \<and> Cube_intersect (Cube_init (0, 0, -5) 2 (1, 0, 0)) (0, 0, 0) (0, 0, -1) = (Some 4, Some (0, 0, 1))"
proof -
  let ?A = "Cube_init (0, 0, -5) 2 (0, 1, 0)" and ?B = "Cube_init (0, 0, -5) 2 (1, 0, 0)"
  let ?ro = "(0, 0, 0) :: vec" and ?rd = "(0, 0, -1) :: vec"
  have nh: "\<not> (\<forall>obj \<in> set [?A, ?B]. fst (Cube_intersect obj ?ro ?rd) = None)"
    by (simp add: Cube_intersect_front)
  from resolve_nearest_first[of "[?A, ?B]" ?ro ?rd]
  have "\<exists>pre obj post t n.
          [?A, ?B] = pre @ obj # post \<and> Cube_intersect obj ?ro ?rd = (Some t, Some n)
          \<and> resolve [?A, ?B] ?ro ?rd = (Some obj, Some t, Some (Some n))
          \<and> (\<forall>o' \<in> set pre. \<forall>t'. fst (Cube_intersect o' ?ro ?rd) = Some t' \<longrightarrow> t < t')
          \<and> (\<forall>o' \<in> set post. \<forall>t'. fst (Cube_intersect o' ?ro ?rd) = Some t' \<longrightarrow> t \<le> t')"
    unfolding if_not_P[OF nh] .
  then obtain pre obj post t n where h: "[?A, ?B] = pre @ obj # post"
    "Cube_intersect obj ?ro ?rd = (Some t, Some n)"
    "resolve [?A, ?B] ?ro ?rd = (Some obj, Some t, Some (Some n))"
    "\<forall>o' \<in> set pre. \<forall>t'. fst (Cube_intersect o' ?ro ?rd) = Some t' \<longrightarrow> t < t'"
    by blast
  from h(1) consider "pre = []" "obj = ?A" | "pre = [?A]" "obj = ?B"
    by (cases pre) (auto simp add: Cons_eq_append_conv)
  then have "obj = ?A"
  proof cases
    case 1
    then show ?thesis by simp
  next
    case 2
    then have "t = 4" using h(2) by (simp add: Cube_intersect_front)
    moreover have "t < 4" using h(4) 2 by (simp add: Cube_intersect_front)
    ultimately show ?thesis by simp
  qed
  with h(2,3) show ?thesis by (simp add: Cube_intersect_front)
qed

section \<open>The renderer\<close>

lemma shape_nth: "shape h w img \<Longrightarrow> y < h \<Longrightarrow> length (img ! y) = w"
  by (simp add: shape_def)

lemma shape_update: "shape h w img \<Longrightarrow> y < h \<Longrightarrow> shape h w (img[y := (img ! y)[x := v]])"
  unfolding shape_def by (auto dest!: subsetD[OF set_update_subset_insert])

lemma for_loop_append:
  "for_loop body (xs @ ys) st =
     (case for_loop body xs st of Inl e \<Rightarrow> Inl e | Inr st' \<Rightarrow> for_loop body ys st')"
  by (induction xs arbitrary: st) (auto split: sum.splits)

lemma render_pixel_step:
  assumes w: "0 < w" and h: "0 < h" and y: "y < length (image st)" and x: "x < length (image st ! y)"
  shows "\<exists>hc hn. render_pixel scene l cam w h fov y x st =
           Inr \<lparr>image = (image st)[y := (image st ! y)[x := pixel_after scene l cam w h fov y x (image st ! y ! x)]],
                hit_count = hc, hit_normal = hn\<rparr>"
proof -
  from ray_from_camera_char[OF w h, of cam x y fov]
  obtain direction where ray: "ray_from_camera cam x y w h fov = Inr (cam, Some direction)"
    by blast
  obtain co' md' hc' hn' where
    sl: "scene_loop cam direction scene (None, None, hit_count st, hit_normal st) = (co', md', hc', hn')"
    by (cases "scene_loop cam direction scene (None, None, hit_count st, hit_normal st)")
  from scene_loop_resolve[OF sl] show ?thesis
  proof
    assume a: "co' = None \<and> hn' = hit_normal st \<and> fst (resolve scene cam direction) = None"
    then obtain md hn where r: "resolve scene cam direction = (None, md, hn)"
      by (cases "resolve scene cam direction") auto
    have pa: "pixel_after scene l cam w h fov y x (image st ! y ! x) = image st ! y ! x"
      by (simp add: pixel_after_def ray r)
    have id: "(image st)[y := (image st ! y)[x := image st ! y ! x]] = image st"
      by (simp add: list_update_same_conv)
    have "render_pixel scene l cam w h fov y x st = Inr (st\<lparr>hit_count := hc', hit_normal := hn'\<rparr>)"
      using a by (simp add: render_pixel_def ray sl)
    also have "st\<lparr>hit_count := hc', hit_normal := hn'\<rparr> = \<lparr>image = image st, hit_count = hc', hit_normal = hn'\<rparr>"
      by (cases st) simp
    finally show ?thesis unfolding pa id by blast
  next
    assume "\<exists>obj t n. co' = Some obj \<and> md' = Some t \<and> hn' = Some (Some n)
             \<and> resolve scene cam direction = (Some obj, Some t, Some (Some n))"
    then obtain obj t n where a: "co' = Some obj" "md' = Some t" "hn' = Some (Some n)"
      and r: "resolve scene cam direction = (Some obj, Some t, Some (Some n))"
      by blast
    have pa: "pixel_after scene l cam w h fov y x (image st ! y ! x) = shade l cam direction obj t n"
      by (simp add: pixel_after_def ray r)
    have "render_pixel scene l cam w h fov y x st =
        Inr \<lparr>image = (image st)[y := (image st ! y)[x := shade l cam direction obj t n]],
             hit_count = hc', hit_normal = hn'\<rparr>"
      using a x y
      by (simp add: render_pixel_def ray sl set_pixel_def shade_def Let_def split: option.splits)
    then show ?thesis unfolding pa by blast
  qed
qed

lemma render_row_prefix:
  assumes sh: "shape h w (image st)" and y: "y < h" and k: "k \<le> w"
  shows "\<exists>st'. for_loop (render_pixel scene l cam w h fov y) [0..<k] st = Inr st'
           \<and> shape h w (image st')
           \<and> (\<forall>y' < h. \<forall>x' < w. image st' ! y' ! x' =
                (if y' = y \<and> x' < k then pixel_after scene l cam w h fov y x' (image st ! y' ! x')
                 else image st ! y' ! x'))"
  using k
proof (induction k)
  case 0
  then show ?case using sh by simp
next
  case (Suc k)
  then obtain st1 where st1: "for_loop (render_pixel scene l cam w h fov y) [0..<k] st = Inr st1"
    "shape h w (image st1)"
    "\<forall>y' < h. \<forall>x' < w. image st1 ! y' ! x' =
                (if y' = y \<and> x' < k then pixel_after scene l cam w h fov y x' (image st ! y' ! x')
                 else image st ! y' ! x')"
    by auto
  have kw: "k < w" using Suc.prems by simp
  have hpos: "0 < h" using y by simp
  have ylen: "y < length (image st1)" using st1(2) y by (simp add: shape_def)
  have xlen: "k < length (image st1 ! y)" using shape_nth[OF st1(2) y] kw by simp
  from render_pixel_step[of w h y st1 k scene l cam fov] kw hpos ylen xlen
  obtain hc hn where step: "render_pixel scene l cam w h fov y k st1 =
      Inr \<lparr>image = (image st1)[y := (image st1 ! y)[k := pixel_after scene l cam w h fov y k (image st1 ! y ! k)]],
           hit_count = hc, hit_normal = hn\<rparr>"
    by auto
  let ?st2 = "\<lparr>image = (image st1)[y := (image st1 ! y)[k := pixel_after scene l cam w h fov y k (image st1 ! y ! k)]],
           hit_count = hc, hit_normal = hn\<rparr>"
  have run: "for_loop (render_pixel scene l cam w h fov y) [0..<Suc k] st = Inr ?st2"
    by (simp add: for_loop_append st1(1) step)
  have sh2: "shape h w (image ?st2)" using shape_update[OF st1(2) y] by simp
  have old: "image st1 ! y ! k = image st ! y ! k" using st1(3) y kw by simp
  have px: "\<forall>y' < h. \<forall>x' < w. image ?st2 ! y' ! x' =
                (if y' = y \<and> x' < Suc k then pixel_after scene l cam w h fov y x' (image st ! y' ! x')
                 else image st ! y' ! x')"
  proof (intro allI impI)
    fix y' x' assume b: "y' < h" "x' < w"
    have len1: "length (image st1) = h" using st1(2) by (simp add: shape_def)
    have lenr: "length (image st1 ! y) = w" using shape_nth[OF st1(2) y] .
    show "image ?st2 ! y' ! x' =
                (if y' = y \<and> x' < Suc k then pixel_after scene l cam w h fov y x' (image st ! y' ! x')
                 else image st ! y' ! x')"
    proof (cases "y' = y")
      case True
      show ?thesis
      proof (cases "x' = k")
        case xk: True
        then show ?thesis using True b len1 lenr old y by simp
      next
        case False
        then show ?thesis using True b len1 lenr st1(3) y by (auto simp: less_Suc_eq)
      qed
    next
      case False
      then show ?thesis using b len1 st1(3) by simp
    qed
  qed
  from run sh2 px show ?case by blast
qed

lemma render_row_char:
  assumes sh: "shape h w (image st)" and y: "y < h"
  shows "\<exists>st'. render_row scene l cam w h fov y st = Inr st'
           \<and> shape h w (image st')
           \<and> (\<forall>y' < h. \<forall>x' < w. image st' ! y' ! x' =
                (if y' = y then pixel_after scene l cam w h fov y x' (image st ! y' ! x')
                 else image st ! y' ! x'))"
proof -
  from render_row_prefix[OF sh y order_refl, of scene l cam fov]
  obtain st' where st': "for_loop (render_pixel scene l cam w h fov y) [0..<w] st = Inr st'"
    "shape h w (image st')"
    "\<forall>y' < h. \<forall>x' < w. image st' ! y' ! x' =
                (if y' = y \<and> x' < w then pixel_after scene l cam w h fov y x' (image st ! y' ! x')
                 else image st ! y' ! x')"
    by blast
  have "\<forall>y' < h. \<forall>x' < w. image st' ! y' ! x' =
                (if y' = y then pixel_after scene l cam w h fov y x' (image st ! y' ! x')
                 else image st ! y' ! x')"
    using st'(3) by simp
  with st'(1,2) show ?thesis unfolding render_row_def by blast
qed

lemma render_rows_prefix:
  assumes sh: "shape h w (image st)" and k: "k \<le> h"
  shows "\<exists>st'. for_loop (render_row scene l cam w h fov) [0..<k] st = Inr st'
           \<and> shape h w (image st')
           \<and> (\<forall>y' < h. \<forall>x' < w. image st' ! y' ! x' =
                (if y' < k then pixel_after scene l cam w h fov y' x' (image st ! y' ! x')
                 else image st ! y' ! x'))"
  using k
proof (induction k)
  case 0
  then show ?case using sh by simp
next
  case (Suc k)
  then obtain st1 where st1: "for_loop (render_row scene l cam w h fov) [0..<k] st = Inr st1"
    "shape h w (image st1)"
    "\<forall>y' < h. \<forall>x' < w. image st1 ! y' ! x' =
                (if y' < k then pixel_after scene l cam w h fov y' x' (image st ! y' ! x')
                 else image st ! y' ! x')"
    by auto
  have kh: "k < h" using Suc.prems by simp
  from render_row_char[OF st1(2) kh, of scene l cam fov]
  obtain st2 where st2: "render_row scene l cam w h fov k st1 = Inr st2"
    "shape h w (image st2)"
    "\<forall>y' < h. \<forall>x' < w. image st2 ! y' ! x' =
                (if y' = k then pixel_after scene l cam w h fov k x' (image st1 ! y' ! x')
                 else image st1 ! y' ! x')"
    by blast
  have run: "for_loop (render_row scene l cam w h fov) [0..<Suc k] st = Inr st2"
    by (simp add: for_loop_append st1(1) st2(1))
  have "\<forall>y' < h. \<forall>x' < w. image st2 ! y' ! x' =
                (if y' < Suc k then pixel_after scene l cam w h fov y' x' (image st ! y' ! x')
                 else image st ! y' ! x')"
    using st1(3) st2(3) kh by (auto simp: less_Suc_eq)
  with run st2(2) show ?case by blast
qed

lemma render_char:
  "\<exists>img. render scene l cam w h fov = Inr img \<and> shape h w img
     \<and> (\<forall>y < h. \<forall>x < w. img ! y ! x = pixel_after scene l cam w h fov y x (Pixel (0, 0, 0)))"
proof -
  let ?st0 = "\<lparr>image = replicate h (replicate w (Pixel (0, 0, 0))), hit_count = 0, hit_normal = None\<rparr>"
  have sh: "shape h w (image ?st0)" by (simp add: shape_def)
  from render_rows_prefix[OF sh order_refl, of scene l cam fov]
  obtain st' where st': "for_loop (render_row scene l cam w h fov) [0..<h] ?st0 = Inr st'"
    "shape h w (image st')"
    "\<forall>y' < h. \<forall>x' < w. image st' ! y' ! x' =
                (if y' < h then pixel_after scene l cam w h fov y' x' (image ?st0 ! y' ! x')
                 else image ?st0 ! y' ! x')"
    by blast
  have r: "render scene l cam w h fov = Inr (image st')"
    by (simp add: render_def Let_def st'(1))
  have "\<forall>y < h. \<forall>x < w. image st' ! y ! x = pixel_after scene l cam w h fov y x (Pixel (0, 0, 0))"
    using st'(3) by simp
  with r st'(2) show ?thesis by blast
qed

lemma pixel_after_cases:
  assumes w: "0 < w" and h: "0 < h"
  shows "\<exists>origin direction. ray_from_camera cam x y w h fov = Inr (origin, Some direction)
     \<and> (case resolve scene origin direction of
          (None, md, hn) \<Rightarrow> pixel_after scene l cam w h fov y x old = old
        | (Some obj, md, hn) \<Rightarrow>
            \<exists>t n. md = Some t \<and> hn = Some (Some n)
              \<and> pixel_after scene l cam w h fov y x old =
                 (case compute_lighting (vadd origin (smul direction t)) n l of
                    None \<Rightarrow> NonFinitePixel
                  | Some li \<Rightarrow> Pixel (clip (smul (color obj) (li + ambient_light)))))"
proof -
  from ray_from_camera_char[OF w h, of cam x y fov]
  obtain direction where ray: "ray_from_camera cam x y w h fov = Inr (cam, Some direction)"
    by blast
  from resolve_char[of scene cam direction]
  have c: "case resolve scene cam direction of
          (None, md, hn) \<Rightarrow> pixel_after scene l cam w h fov y x old = old
        | (Some obj, md, hn) \<Rightarrow>
            \<exists>t n. md = Some t \<and> hn = Some (Some n)
              \<and> pixel_after scene l cam w h fov y x old =
                 (case compute_lighting (vadd cam (smul direction t)) n l of
                    None \<Rightarrow> NonFinitePixel
                  | Some li \<Rightarrow> Pixel (clip (smul (color obj) (li + ambient_light))))"
  proof
    assume "resolve scene cam direction = (None, None, None)
          \<and> (\<forall>obj \<in> set scene. fst (Cube_intersect obj cam direction) = None)"
    then show ?thesis by (simp add: pixel_after_def ray)
  next
    assume "\<exists>pre obj post t n.
             scene = pre @ obj # post \<and> Cube_intersect obj cam direction = (Some t, Some n)
             \<and> resolve scene cam direction = (Some obj, Some t, Some (Some n))
             \<and> (\<forall>o' \<in> set pre. \<forall>t'. fst (Cube_intersect o' cam direction) = Some t' \<longrightarrow> t < t')
             \<and> (\<forall>o' \<in> set post. \<forall>t'. fst (Cube_intersect o' cam direction) = Some t' \<longrightarrow> t \<le> t')"
    then obtain obj t n where "resolve scene cam direction = (Some obj, Some t, Some (Some n))"
      by blast
    then show ?thesis by (cases n) (simp add: pixel_after_def ray shade_def)
  qed
  show ?thesis by (intro exI[of _ cam] exI[of _ direction] conjI ray c)
qed

lemma clip_range:
  "clip v = (a, b, c) \<Longrightarrow> 0 \<le> a \<and> a \<le> 1 \<and> 0 \<le> b \<and> b \<le> 1 \<and> 0 \<le> c \<and> c \<le> 1"
  by (cases v) (auto simp add: clip01_def)

lemma ray_center: "ray_from_camera cam 0 0 (Suc 0) (Suc 0) fov = Inr (cam, Some (0, 0, -1))"
  by (simp add: ray_from_camera_def vdivs_def)

lemma resolve_front:
  "resolve (Cube_init (0, 0, -5) 2 col # rest) (0, 0, 0) (0, 0, -1) =
     (case scene_loop (0, 0, 0) (0, 0, -1) rest
             (Some (Cube_init (0, 0, -5) 2 col), Some 4, 1, Some (Some (0, 0, 1))) of
        (closest_obj, min_dist, hc, hn) \<Rightarrow> (closest_obj, min_dist, hn))"
  by (simp add: resolve_def Cube_intersect_front)

lemma singleton_image:
  assumes "length img = 1" "length (img ! 0) = 1"
  shows "img = [[img ! 0 ! 0]]"
proof -
  from assms(1) obtain r where r: "img = [r]" by (cases img) auto
  with assms(2) obtain p where "r = [p]" by (cases r) auto
  with r show ?thesis by simp
qed

text \<open>
  Claim C1. For every pixel \<open>x < width\<close>, \<open>y < height\<close>: \<open>render\<close> returns an image (it
  raises nothing) of \<open>height\<close> rows of \<open>width\<close> pixels; the camera ray of the pixel is
  generated and the nearest hit over the scene is resolved; without a hit \<open>image[y, x]\<close>
  is \<open>(0, 0, 0)\<close>; with a hit on \<open>obj\<close> at distance \<open>t\<close> with normal \<open>n\<close> it is the colour
  of \<open>obj\<close> times (the lambertian term at \<open>origin + t * direction\<close> plus the ambient
  constant), clamped by \<open>np.clip\<close>. Where the lambertian term is not a number (the hit
  point is the light position), neither is the product, and clamping keeps it so.
\<close>

theorem render_pixel_spec:
  assumes x: "x < image_width" and y: "y < image_height"
  shows "\<exists>img origin direction.
       render scene scene_light camera_position image_width image_height fov = Inr img
     \<and> length img = image_height \<and> length (img ! y) = image_width
     \<and> ray_from_camera camera_position x y image_width image_height fov = Inr (origin, Some direction)
     \<and> (case resolve scene origin direction of
          (None, md, hn) \<Rightarrow> img ! y ! x = Pixel (0, 0, 0)
        | (Some obj, md, hn) \<Rightarrow>
            \<exists>t n. md = Some t \<and> hn = Some (Some n)
              \<and> img ! y ! x =
                 (case compute_lighting (vadd origin (smul direction t)) n scene_light of
                    None \<Rightarrow> NonFinitePixel
                  | Some li \<Rightarrow> Pixel (clip (smul (color obj) (li + ambient_light)))))"
proof -
  have w: "0 < image_width" and h: "0 < image_height" using x y by simp_all
  from render_char[of scene scene_light camera_position image_width image_height fov]
  obtain img where img: "render scene scene_light camera_position image_width image_height fov = Inr img"
    "shape image_height image_width img"
    "\<forall>y < image_height. \<forall>x < image_width. img ! y ! x =
        pixel_after scene scene_light camera_position image_width image_height fov y x (Pixel (0, 0, 0))"
    by blast
  have px: "img ! y ! x =
      pixel_after scene scene_light camera_position image_width image_height fov y x (Pixel (0, 0, 0))"
    using img(3) x y by simp
  have len: "length img = image_height" "length (img ! y) = image_width"
    using img(2) shape_nth[OF img(2) y] by (simp_all add: shape_def)
  let ?P = "\<lambda>origin direction.
      ray_from_camera camera_position x y image_width image_height fov = Inr (origin, Some direction)
      \<and> (case resolve scene origin direction of
          (None, md, hn) \<Rightarrow> img ! y ! x = Pixel (0, 0, 0)
        | (Some obj, md, hn) \<Rightarrow>
            \<exists>t n. md = Some t \<and> hn = Some (Some n)
              \<and> img ! y ! x =
                 (case compute_lighting (vadd origin (smul direction t)) n scene_light of
                    None \<Rightarrow> NonFinitePixel
                  | Some li \<Rightarrow> Pixel (clip (smul (color obj) (li + ambient_light)))))"
  from pixel_after_cases[OF w h, of camera_position x y fov scene scene_light "Pixel (0, 0, 0)"]
  have "\<exists>origin direction. ?P origin direction" unfolding px[symmetric] .
  then obtain origin where "\<exists>direction. ?P origin direction" ..
  then obtain direction where "?P origin direction" ..
  then have
    ray: "ray_from_camera camera_position x y image_width image_height fov = Inr (origin, Some direction)"
    and c: "case resolve scene origin direction of
          (None, md, hn) \<Rightarrow> img ! y ! x = Pixel (0, 0, 0)
        | (Some obj, md, hn) \<Rightarrow>
            \<exists>t n. md = Some t \<and> hn = Some (Some n)
              \<and> img ! y ! x =
                 (case compute_lighting (vadd origin (smul direction t)) n scene_light of
                    None \<Rightarrow> NonFinitePixel
                  | Some li \<Rightarrow> Pixel (clip (smul (color obj) (li + ambient_light))))"
    by (rule conjunct1, rule conjunct2)
  show ?thesis
    by (intro exI[of _ img] exI[of _ origin] exI[of _ direction] conjI img(1) len ray c)
qed

theorem render_pixel_spec_witness:
  "(0::nat) < 1
   \<and> render [Cube_init (0, 0, -5) 2 (0, 1, 0)] \<lparr>position = (0, 0, -3), intensity = 1.5\<rparr> (0, 0, 0) 1 1 90
       = Inr [[Pixel (0, 1, 0)]]"
proof -
  let ?scene = "[Cube_init (0, 0, -5) 2 (0, 1, 0)]"
  let ?l = "\<lparr>position = (0, 0, -3), intensity = 1.5\<rparr>"
  have lt: "(0::nat) < 1" by simp
  from render_pixel_spec[OF lt lt, of ?scene ?l "(0, 0, 0)" 90]
  obtain img origin direction where h:
    "render ?scene ?l (0, 0, 0) 1 1 90 = Inr img" "length img = 1" "length (img ! 0) = 1"
    "ray_from_camera (0, 0, 0) 0 0 1 1 90 = Inr (origin, Some direction)"
    "case resolve ?scene origin direction of
          (None, md, hn) \<Rightarrow> img ! 0 ! 0 = Pixel (0, 0, 0)
        | (Some obj, md, hn) \<Rightarrow>
            \<exists>t n. md = Some t \<and> hn = Some (Some n)
              \<and> img ! 0 ! 0 =
                 (case compute_lighting (vadd origin (smul direction t)) n ?l of
                    None \<Rightarrow> NonFinitePixel
                  | Some li \<Rightarrow> Pixel (clip (smul (color obj) (li + ambient_light))))"
    by (elim exE conjE)
  from h(4) have od: "origin = (0, 0, 0)" "direction = (0, 0, -1)"
    by (simp_all add: ray_center)
  have r: "resolve ?scene (0, 0, 0) (0, 0, -1) =
      (Some (Cube_init (0, 0, -5) 2 (0, 1, 0)), Some 4, Some (Some (0, 0, 1)))"
    by (simp add: resolve_front)
  have col: "color (Cube_init (0, 0, -5) 2 (0, 1, 0)) = (0, 1, 0)"
    by (simp add: Cube_init_def)
  have "img ! 0 ! 0 = Pixel (0, 1, 0)"
    using h(5) unfolding od r
    by (simp add: col compute_lighting_def vdivs_def ambient_light_def clip01_def)
  with singleton_image[OF h(2,3)] h(1) show ?thesis by simp
qed

text \<open>
  Claim C7. \<open>render\<close> is a function of its six arguments: it owns all its state, so two
  runs on the same arguments return the same image. No pixel depends on the computation
  of another pixel: what the finished image holds at \<open>(x, y)\<close> is what the body of the
  loop writes there when it is run for this pixel alone, on any state in which the pixel
  is still blank, whatever the other pixels, the counter \<open>hit_count\<close> and the variable
  \<open>hit_normal\<close>, which the loop carries from pixel to pixel, hold; and it is the value
  of \<open>pixel_after\<close>, a function of the scene, the light, the camera configuration and the
  coordinates of the pixel.
\<close>

theorem render_pixel_independent:
  assumes x: "x < image_width" and y: "y < image_height"
    and ylen: "y < length (image st)" and xlen: "x < length (image st ! y)"
    and blank: "image st ! y ! x = Pixel (0, 0, 0)"
  shows "\<exists>img st'.
       render scene scene_light camera_position image_width image_height fov = Inr img
     \<and> render_pixel scene scene_light camera_position image_width image_height fov y x st = Inr st'
     \<and> img ! y ! x = image st' ! y ! x
     \<and> img ! y ! x =
         pixel_after scene scene_light camera_position image_width image_height fov y x (Pixel (0, 0, 0))"
proof -
  have w: "0 < image_width" and h: "0 < image_height" using x y by simp_all
  from render_char[of scene scene_light camera_position image_width image_height fov]
  obtain img where img: "render scene scene_light camera_position image_width image_height fov = Inr img"
    "\<forall>y < image_height. \<forall>x < image_width. img ! y ! x =
        pixel_after scene scene_light camera_position image_width image_height fov y x (Pixel (0, 0, 0))"
    by blast
  from render_pixel_step[OF w h ylen xlen, of scene scene_light camera_position fov]
  obtain hc hn where st': "render_pixel scene scene_light camera_position image_width image_height fov y x st =
           Inr \<lparr>image = (image st)[y := (image st ! y)[x :=
                   pixel_after scene scene_light camera_position image_width image_height fov y x (image st ! y ! x)]],
                hit_count = hc, hit_normal = hn\<rparr>"
    by blast
  have "img ! y ! x =
      pixel_after scene scene_light camera_position image_width image_height fov y x (Pixel (0, 0, 0))"
    using img(2) x y by simp
  moreover have "image \<lparr>image = (image st)[y := (image st ! y)[x :=
                   pixel_after scene scene_light camera_position image_width image_height fov y x (image st ! y ! x)]],
                hit_count = hc, hit_normal = hn\<rparr> ! y ! x =
      pixel_after scene scene_light camera_position image_width image_height fov y x (Pixel (0, 0, 0))"
    using ylen xlen blank by simp
  ultimately show ?thesis using img(1) st' by simp
qed

theorem render_pixel_independent_witness:
  "(0::nat) < 2
   \<and> (\<exists>img st'.
        render [Cube_init (0, 0, -5) 2 (0, 1, 0)] \<lparr>position = (0, 0, -3), intensity = 1.5\<rparr> (0, 0, 0) 2 2 90
          = Inr img
      \<and> render_pixel [Cube_init (0, 0, -5) 2 (0, 1, 0)] \<lparr>position = (0, 0, -3), intensity = 1.5\<rparr>
          (0, 0, 0) 2 2 90 0 0
          \<lparr>image = [[Pixel (0, 0, 0), NonFinitePixel], [Pixel (1, 1, 1), Pixel (1, 0, 0)]],
           hit_count = 7, hit_normal = Some (Some (1, 0, 0))\<rparr> = Inr st'
      \<and> img ! 0 ! 0 = image st' ! 0 ! 0
      \<and> img ! 0 ! 0 =
          pixel_after [Cube_init (0, 0, -5) 2 (0, 1, 0)] \<lparr>position = (0, 0, -3), intensity = 1.5\<rparr>
            (0, 0, 0) 2 2 90 0 0 (Pixel (0, 0, 0)))"
  using render_pixel_independent[of 0 2 0 2
      "\<lparr>image = [[Pixel (0, 0, 0), NonFinitePixel], [Pixel (1, 1, 1), Pixel (1, 0, 0)]],
           hit_count = 7, hit_normal = Some (Some (1, 0, 0))\<rparr>"
      "[Cube_init (0, 0, -5) 2 (0, 1, 0)]" "\<lparr>position = (0, 0, -3), intensity = 1.5\<rparr>" "(0, 0, 0)" 90]
  by simp

text \<open>A hit point that is the light position does occur: the image of one pixel, the
  camera at the origin and the light on the front face of the cube.\<close>

lemma render_light_on_surface:
  "render [Cube_init (0, 0, -5) 2 (0, 1, 0)] \<lparr>position = (0, 0, -4), intensity = 1.5\<rparr> (0, 0, 0) 1 1 90
       = Inr [[NonFinitePixel]]"
proof -
  let ?scene = "[Cube_init (0, 0, -5) 2 (0, 1, 0)]"
  let ?l = "\<lparr>position = (0, 0, -4), intensity = 1.5\<rparr>"
  from render_char[of ?scene ?l "(0, 0, 0)" 1 1 90]
  obtain img where img: "render ?scene ?l (0, 0, 0) 1 1 90 = Inr img" "shape 1 1 img"
    "img ! 0 ! 0 = pixel_after ?scene ?l (0, 0, 0) 1 1 90 0 0 (Pixel (0, 0, 0))"
    by auto
  have "pixel_after ?scene ?l (0, 0, 0) 1 1 90 0 0 (Pixel (0, 0, 0)) = NonFinitePixel"
    by (simp add: pixel_after_def ray_center resolve_front shade_def compute_lighting_def vdivs_def)
  moreover have "length img = 1" "length (img ! 0) = 1"
    using img(2) shape_nth[OF img(2), of 0] by (simp_all add: shape_def)
  ultimately show ?thesis using singleton_image[of img] img(1,3) by simp
qed

end
